theory Spec2Isabelle
  imports Complex_Main "HOL-Library.Log_Nat"
begin

section \<open>Numbers and scene-graph handles\<close>

text \<open>
  The scene is a React component tree drawn with three.js. Every quantity the frame
  callbacks compute with is a JavaScript number. The embedding uses the reals for them:
  sums and products are exact, comparisons are the usual order. The theorems about the
  callbacks are statements about this exact arithmetic. Section \<open>Binary64 arithmetic\<close>
  repeats the two fixed-step scenarios of the specification with every sum and product
  rounded as IEEE 754 binary64 prescribes, to show that their outcome does not rest on
  the idealisation.

  A \<open>THREE.Group\<close> is reduced to the three coordinates that the callbacks read or write.
  A React ref (\<open>useRef<THREE.Group>(null)\<close>) holds \<open>None\<close> until the group is mounted.
\<close>

record group =
  position_x :: real
  position_y :: real
  rotation_y :: real

section \<open>Hills and Clouds: the scrolling groups\<close>

text \<open>
  \<open>src/app/index.tsx\<close>, \<open>Hills\<close>, lines 27-37:
  \<^verbatim>\<open>
  useFrame((state, delta) => {
    if (hillsRef.current) {
      hillsRef.current.position.x -= delta * 3;
      if (hillsRef.current.position.x < -60) {
        hillsRef.current.position.x = 0;
      }
    }
  });
  \<close>
  The callback takes the ref's content and returns the new content.
\<close>

definition Hills_useFrame :: "real \<Rightarrow> group option \<Rightarrow> group option" where
  "Hills_useFrame delta hillsRef =
     (case hillsRef of
        None \<Rightarrow> None
      | Some g \<Rightarrow>
          (let g1 = g\<lparr>position_x := position_x g - delta * 3\<rparr>
           in Some (if position_x g1 < - 60 then g1\<lparr>position_x := 0\<rparr> else g1)))"

text \<open>\<open>src/app/index.tsx\<close>, \<open>Clouds\<close>, lines 148-156: speed \<open>1.5\<close>, bound \<open>-60\<close>.\<close>

definition Clouds_useFrame :: "real \<Rightarrow> group option \<Rightarrow> group option" where
  "Clouds_useFrame delta cloudsRef =
     (case cloudsRef of
        None \<Rightarrow> None
      | Some g \<Rightarrow>
          (let g1 = g\<lparr>position_x := position_x g - delta * 1.5\<rparr>
           in Some (if position_x g1 < - 60 then g1\<lparr>position_x := 0\<rparr> else g1)))"

text \<open>
  The second source file (\<open>src/unnamed/part_000\<close>) is another variant of the same
  scene; its definitions carry the suffix \<open>_p0\<close>. \<open>Hills\<close>, lines 27-37: speed \<open>5\<close>,
  bound \<open>-40\<close>. \<open>Clouds\<close>, lines 129-137: speed \<open>2\<close>, bound \<open>-50\<close>.
\<close>

definition Hills_useFrame_p0 :: "real \<Rightarrow> group option \<Rightarrow> group option" where
  "Hills_useFrame_p0 delta hillsRef =
     (case hillsRef of
        None \<Rightarrow> None
      | Some g \<Rightarrow>
          (let g1 = g\<lparr>position_x := position_x g - delta * 5\<rparr>
           in Some (if position_x g1 < - 40 then g1\<lparr>position_x := 0\<rparr> else g1)))"

definition Clouds_useFrame_p0 :: "real \<Rightarrow> group option \<Rightarrow> group option" where
  "Clouds_useFrame_p0 delta cloudsRef =
     (case cloudsRef of
        None \<Rightarrow> None
      | Some g \<Rightarrow>
          (let g1 = g\<lparr>position_x := position_x g - delta * 2\<rparr>
           in Some (if position_x g1 < - 50 then g1\<lparr>position_x := 0\<rparr> else g1)))"

text \<open>
  The specification (section 4.1) describes all four callbacks as one operation on a
  \<open>ScrollableGroup\<close>; the next record and \<open>tick\<close> follow its words: "advances
  \<open>offsetX -= speed * dt\<close>; if \<open>offsetX < -wrapThreshold\<close>, set \<open>offsetX = resetValue\<close>".
\<close>

record ScrollableGroup =
  offsetX :: real
  speed :: real
  wrapThreshold :: real
  resetValue :: real

definition tick :: "real \<Rightarrow> ScrollableGroup \<Rightarrow> ScrollableGroup" where
  "tick dt G =
     (let G1 = G\<lparr>offsetX := offsetX G - speed G * dt\<rparr>
      in if offsetX G1 < - wrapThreshold G1 then G1\<lparr>offsetX := resetValue G1\<rparr> else G1)"

text \<open>
  The parameters with which each component instantiates it, read off the literals of
  its callback; the offset is the \<open>position.x\<close> of the component's group.
\<close>

definition Hills_group :: "real \<Rightarrow> ScrollableGroup" where
  "Hills_group x = \<lparr>offsetX = x, speed = 3, wrapThreshold = 60, resetValue = 0\<rparr>"

definition Clouds_group :: "real \<Rightarrow> ScrollableGroup" where
  "Clouds_group x = \<lparr>offsetX = x, speed = 1.5, wrapThreshold = 60, resetValue = 0\<rparr>"

definition Hills_group_p0 :: "real \<Rightarrow> ScrollableGroup" where
  "Hills_group_p0 x = \<lparr>offsetX = x, speed = 5, wrapThreshold = 40, resetValue = 0\<rparr>"

definition Clouds_group_p0 :: "real \<Rightarrow> ScrollableGroup" where
  "Clouds_group_p0 x = \<lparr>offsetX = x, speed = 2, wrapThreshold = 50, resetValue = 0\<rparr>"

text \<open>
  A group mounted by \<open><group ref={...}>\<close> without a \<open>position\<close> attribute sits at the
  origin: the state of \<open>hillsRef\<close> and \<open>cloudsRef\<close> when the first frame runs.
\<close>

definition mounted_at_origin :: "group option" where
  "mounted_at_origin = Some \<lparr>position_x = 0, position_y = 0, rotation_y = 0\<rparr>"

text \<open>
  The number of frames, among those run with the deltas \<open>ds\<close> from the ref content \<open>r\<close>,
  that execute the assignment \<open>hillsRef.current.position.x = 0\<close> of \<open>part_000\<close>: the
  test is the one of the callback, on the offset after the subtraction.
\<close>

fun Hills_resets_p0 :: "real list \<Rightarrow> group option \<Rightarrow> nat" where
  "Hills_resets_p0 [] r = 0"
| "Hills_resets_p0 (d # ds) r =
     (case r of
        None \<Rightarrow> 0
      | Some g \<Rightarrow> (if position_x g - d * 5 < - 40 then 1 else 0))
     + Hills_resets_p0 ds (Hills_useFrame_p0 d r)"

subsection \<open>Generated features\<close>

text \<open>
  \<open>src/app/index.tsx\<close>, \<open>Hills\<close>, lines 14-25. \<open>Math.random()\<close> is a parameter:
  \<open>random k\<close> is the result of the \<open>k\<close>-th call, three calls per hill in source order.
  \<^verbatim>\<open>
  for (let i = 0; i < 30; i++) {
    hills.push({
      x: i * 6 - 60,
      z: Math.random() * 8 - 4,
      height: Math.random() * 2 + 1.5,
      width: Math.random() * 4 + 6,
    });
  }
  \<close>
\<close>

record feature =
  feature_x :: real
  feature_z :: real
  feature_height :: real
  feature_width :: real

definition Hills_init :: "(nat \<Rightarrow> real) \<Rightarrow> feature list" where
  "Hills_init random =
     map (\<lambda>i. \<lparr>feature_x = real i * 6 - 60,
               feature_z = random (3 * i) * 8 - 4,
               feature_height = random (3 * i + 1) * 2 + 1.5,
               feature_width = random (3 * i + 2) * 4 + 6\<rparr>) [0..<30]"

text \<open>\<open>src/unnamed/part_000\<close>, \<open>Hills\<close>, lines 14-25: twenty hills, eight apart.\<close>

definition Hills_init_p0 :: "(nat \<Rightarrow> real) \<Rightarrow> feature list" where
  "Hills_init_p0 random =
     map (\<lambda>i. \<lparr>feature_x = real i * 8 - 40,
               feature_z = random (3 * i) * 10 - 5,
               feature_height = random (3 * i + 1) * 3 + 2,
               feature_width = random (3 * i + 2) * 5 + 4\<rparr>) [0..<20]"

text \<open>
  The clouds are placed by the JSX itself. \<open>index.tsx\<close> line 160-161:
  \<open>[0, 1, 2, 3, 4, 5, 6].map((i) => ... position={[i * 15 - 30, 6 + Math.sin(i) * 1.5, -12]}\<close>;
  \<open>part_000\<close> lines 141-142:
  \<open>[0, 1, 2, 3, 4].map((i) => ... position={[i * 20 - 20, 8 + Math.sin(i) * 2, -10]}\<close>.
\<close>

definition Clouds_positions :: "(real \<times> real \<times> real) list" where
  "Clouds_positions =
     map (\<lambda>i. (i * 15 - 30, 6 + sin i * 1.5, - 12)) [0, 1, 2, 3, 4, 5, 6]"

definition Clouds_positions_p0 :: "(real \<times> real \<times> real) list" where
  "Clouds_positions_p0 =
     map (\<lambda>i. (i * 20 - 20, 8 + sin i * 2, - 10)) [0, 1, 2, 3, 4]"

text \<open>The differences between consecutive entries of a list of x-coordinates.\<close>

fun gaps :: "real list \<Rightarrow> real list" where
  "gaps (a # b # xs) = (b - a) # gaps (b # xs)"
| "gaps xs = []"

section \<open>Kangaroo: the jump simulator\<close>

text \<open>
  The component keeps \<open>isJumping\<close> as React state and \<open>velocityY\<close>, \<open>positionY\<close> as
  refs. A callback reads the \<open>isJumping\<close> of the render that created it, and
  \<open>setIsJumping\<close> becomes visible with the next render. This section takes each callback
  together with that render and with the effect that re-creates the interval (it
  depends on \<open>isJumping\<close>): it keeps one field \<open>isJumping\<close>, written by a callback and
  read by the next one; inside a callback every read sees the value from before the
  call. The section \<open>Kangaroo: callbacks between renders\<close> drops this and lets callbacks
  run before the render.
\<close>

record kangaroo =
  kangarooRef :: "group option"
  isJumping :: bool
  velocityY :: real
  positionY :: real

text \<open>\<open>src/app/index.tsx\<close>, lines 74-76.\<close>

definition gravity :: real where "gravity = - 20"
definition jumpForce :: real where "jumpForce = 9"
definition groundLevel :: real where "groundLevel = 0"

text \<open>\<open>src/unnamed/part_000\<close>, lines 67-69.\<close>

definition gravity_p0 :: real where "gravity_p0 = - 15"
definition jumpForce_p0 :: real where "jumpForce_p0 = 8"
definition groundLevel_p0 :: real where "groundLevel_p0 = 0"

text \<open>
  The body of the \<open>setInterval\<close> callback (\<open>index.tsx\<close> lines 83-88, \<open>part_000\<close> lines
  76-81): one firing of the auto-jump timer.
  \<^verbatim>\<open>
  if (!isJumping) {
    setIsJumping(true);
    velocityY.current = jumpForce;
  }
  \<close>
\<close>

definition jumpInterval :: "kangaroo \<Rightarrow> kangaroo" where
  "jumpInterval s =
     (if \<not> isJumping s then s\<lparr>isJumping := True, velocityY := jumpForce\<rparr> else s)"

definition jumpInterval_p0 :: "kangaroo \<Rightarrow> kangaroo" where
  "jumpInterval_p0 s =
     (if \<not> isJumping s then s\<lparr>isJumping := True, velocityY := jumpForce_p0\<rparr> else s)"

text \<open>
  \<open>src/app/index.tsx\<close>, lines 93-115:
  \<^verbatim>\<open>
  useFrame((state, delta) => {
    if (kangarooRef.current) {
      if (isJumping) {
        velocityY.current += gravity * delta;
        positionY.current += velocityY.current * delta;
        if (positionY.current <= groundLevel) {
          positionY.current = groundLevel;
          velocityY.current = 0;
          setIsJumping(false);
        }
        kangarooRef.current.position.y = positionY.current;
      }
      if (!isJumping) {
        kangarooRef.current.rotation.y = Math.sin(state.clock.elapsedTime * 3) * 0.05;
      }
    }
  });
  \<close>
  The second \<open>if\<close> reads the same \<open>isJumping\<close> as the first, also after
  \<open>setIsJumping(false)\<close>.
\<close>

definition Kangaroo_useFrame :: "real \<Rightarrow> real \<Rightarrow> kangaroo \<Rightarrow> kangaroo" where
  "Kangaroo_useFrame elapsedTime delta s =
     (case kangarooRef s of
        None \<Rightarrow> s
      | Some g \<Rightarrow>
          (let s1 =
             (if isJumping s then
                (let a = s\<lparr>velocityY := velocityY s + gravity * delta\<rparr>;
                     b = a\<lparr>positionY := positionY a + velocityY a * delta\<rparr>;
                     c = (if positionY b \<le> groundLevel
                          then b\<lparr>positionY := groundLevel, velocityY := 0, isJumping := False\<rparr>
                          else b)
                 in c\<lparr>kangarooRef := Some (g\<lparr>position_y := positionY c\<rparr>)\<rparr>)
              else s)
           in if \<not> isJumping s
              then s1\<lparr>kangarooRef :=
                        map_option (\<lambda>h. h\<lparr>rotation_y := sin (elapsedTime * 3) * 0.05\<rparr>)
                          (kangarooRef s1)\<rparr>
              else s1))"

text \<open>
  \<open>src/unnamed/part_000\<close>, lines 86-106: the same physics with the constants of that
  file; the rotation is written on every frame.
  \<^verbatim>\<open>
      kangarooRef.current.rotation.y = Math.sin(state.clock.elapsedTime * 2) * 0.1;
  \<close>
\<close>

definition Kangaroo_useFrame_p0 :: "real \<Rightarrow> real \<Rightarrow> kangaroo \<Rightarrow> kangaroo" where
  "Kangaroo_useFrame_p0 elapsedTime delta s =
     (case kangarooRef s of
        None \<Rightarrow> s
      | Some g \<Rightarrow>
          (let s1 =
             (if isJumping s then
                (let a = s\<lparr>velocityY := velocityY s + gravity_p0 * delta\<rparr>;
                     b = a\<lparr>positionY := positionY a + velocityY a * delta\<rparr>;
                     c = (if positionY b \<le> groundLevel_p0
                          then b\<lparr>positionY := groundLevel_p0, velocityY := 0, isJumping := False\<rparr>
                          else b)
                 in c\<lparr>kangarooRef := Some (g\<lparr>position_y := positionY c\<rparr>)\<rparr>)
              else s)
           in s1\<lparr>kangarooRef :=
                   map_option (\<lambda>h. h\<lparr>rotation_y := sin (elapsedTime * 2) * 0.1\<rparr>)
                     (kangarooRef s1)\<rparr>))"

text \<open>
  The state after mounting: \<open>useState(false)\<close>, \<open>useRef(0)\<close> twice, and the group of
  the JSX (\<open>position={[-1, 0, 0]}\<close> in \<open>index.tsx\<close>, \<open>[0, 0, 0]\<close> in \<open>part_000\<close>).
\<close>

definition Kangaroo_init :: kangaroo where
  "Kangaroo_init =
     \<lparr>kangarooRef = Some \<lparr>position_x = - 1, position_y = 0, rotation_y = 0\<rparr>,
      isJumping = False, velocityY = 0, positionY = 0\<rparr>"

definition Kangaroo_init_p0 :: kangaroo where
  "Kangaroo_init_p0 =
     \<lparr>kangarooRef = Some \<lparr>position_x = 0, position_y = 0, rotation_y = 0\<rparr>,
      isJumping = False, velocityY = 0, positionY = 0\<rparr>"

text \<open>
  The frame driver and the timer call the two callbacks in some interleaving. An event
  is one call: \<open>Frame elapsedTime delta\<close> for a rendered frame, \<open>Timer\<close> for a firing of
  the interval. \<open>Kangaroo_run\<close> applies a list of events from left to right. Wall-clock
  time is not modelled: the period of the interval (\<open>1800\<close> or \<open>2000\<close> milliseconds) does
  not constrain where a \<open>Timer\<close> stands in the list.
\<close>

datatype event = Frame real real | Timer

fun Kangaroo_event :: "event \<Rightarrow> kangaroo \<Rightarrow> kangaroo" where
  "Kangaroo_event (Frame elapsedTime delta) s = Kangaroo_useFrame elapsedTime delta s"
| "Kangaroo_event Timer s = jumpInterval s"

fun Kangaroo_event_p0 :: "event \<Rightarrow> kangaroo \<Rightarrow> kangaroo" where
  "Kangaroo_event_p0 (Frame elapsedTime delta) s = Kangaroo_useFrame_p0 elapsedTime delta s"
| "Kangaroo_event_p0 Timer s = jumpInterval_p0 s"

definition Kangaroo_run :: "event list \<Rightarrow> kangaroo \<Rightarrow> kangaroo" where
  "Kangaroo_run es s = fold Kangaroo_event es s"

definition Kangaroo_run_p0 :: "event list \<Rightarrow> kangaroo \<Rightarrow> kangaroo" where
  "Kangaroo_run_p0 es s = fold Kangaroo_event_p0 es s"

text \<open>
  The three state invariants of the specification's \<open>JumpState\<close>, for a ground level
  \<open>gl\<close>, and a fourth fact that the reachable states also satisfy: an airborne state at
  ground level is the one right after a trigger, so its velocity is the jump force \<open>jf\<close>.
\<close>

definition JumpState_inv :: "real \<Rightarrow> kangaroo \<Rightarrow> bool" where
  "JumpState_inv gl s \<longleftrightarrow>
     gl \<le> positionY s
     \<and> (velocityY s \<noteq> 0 \<longrightarrow> isJumping s)
     \<and> (\<not> isJumping s \<longrightarrow> positionY s = gl \<and> velocityY s = 0)"

definition reach_inv :: "real \<Rightarrow> real \<Rightarrow> kangaroo \<Rightarrow> bool" where
  "reach_inv gl jf s \<longleftrightarrow>
     JumpState_inv gl s \<and> (isJumping s \<and> positionY s = gl \<longrightarrow> velocityY s = jf)"

text \<open>
  A frame driver with a fixed step: \<open>n\<close> frames of the same \<open>delta\<close>, the \<open>k\<close>-th at
  clock time \<open>k * delta\<close>. \<open>scenario_jump n\<close> is the state of the specification's
  end-to-end scenario after \<open>n\<close> ticks: the constants of \<open>part_000\<close> (gravity \<open>-15\<close>,
  jump force \<open>8\<close>, ground level \<open>0\<close>), one trigger at tick \<open>0\<close>, then frames of \<open>1/60\<close>.
\<close>

definition fixed_step :: "real \<Rightarrow> nat \<Rightarrow> event list" where
  "fixed_step dt n = map (\<lambda>k. Frame (real k * dt) dt) [1..<Suc n]"

definition scenario_jump :: "nat \<Rightarrow> kangaroo" where
  "scenario_jump n = Kangaroo_run_p0 (Timer # fixed_step (1/60) n) Kangaroo_init_p0"

text \<open>
  The states that a list of events passes through, starting state included, and the
  events that are frames with a positive \<open>delta\<close>.
\<close>

fun trace :: "('e \<Rightarrow> 's \<Rightarrow> 's) \<Rightarrow> 'e list \<Rightarrow> 's \<Rightarrow> 's list" where
  "trace f [] s = [s]"
| "trace f (e # es) s = s # trace f es (f e s)"

fun positive_frame :: "event \<Rightarrow> bool" where
  "positive_frame (Frame elapsedTime delta) = (0 < delta)"
| "positive_frame Timer = False"

text \<open>
  Four frames of different lengths, used as a concrete run below; the clock is the sum
  of the deltas.
\<close>

definition four_frames :: "event list" where
  "four_frames = [Frame (1/4) (1/4), Frame (9/20) (1/5), Frame (11/20) (1/10), Frame (31/20) 1]"

section \<open>Kangaroo: callbacks between renders\<close>

text \<open>
  The section above takes each callback together with the render that its
  \<open>setIsJumping\<close> requests. React does not promise that: \<open>velocityY.current\<close> and
  \<open>positionY.current\<close> are written at once, while the new \<open>isJumping\<close> reaches the frame
  callback only when the next render is committed (\<open>useFrame\<close> installs the callback of
  that render), and reaches the interval callback only when the effect of that render
  has run (\<open>useEffect(..., [isJumping])\<close> clears the interval and creates a new one). This
  section keeps the three apart. In a \<open>component\<close>, \<open>current\<close> holds the refs and, in its
  field \<open>isJumping\<close>, the value most recently passed to \<open>setIsJumping\<close> (initially that of
  \<open>useState(false)\<close>); \<open>frame_isJumping\<close> is the \<open>isJumping\<close> that the installed frame
  callback reads, and \<open>interval_isJumping\<close> the one that the running interval callback
  reads.
\<close>

record component =
  current :: kangaroo
  frame_isJumping :: bool
  interval_isJumping :: bool

text \<open>The interval callback: \<open>index.tsx\<close> lines 83-88, \<open>part_000\<close> lines 76-81.\<close>

definition Kangaroo_onInterval :: "component \<Rightarrow> component" where
  "Kangaroo_onInterval c =
     (if \<not> interval_isJumping c
      then c\<lparr>current := (current c)\<lparr>isJumping := True, velocityY := jumpForce\<rparr>\<rparr>
      else c)"

definition Kangaroo_onInterval_p0 :: "component \<Rightarrow> component" where
  "Kangaroo_onInterval_p0 c =
     (if \<not> interval_isJumping c
      then c\<lparr>current := (current c)\<lparr>isJumping := True, velocityY := jumpForce_p0\<rparr>\<rparr>
      else c)"

text \<open>
  The frame callback: \<open>index.tsx\<close> lines 93-115, \<open>part_000\<close> lines 86-106. Both tests of
  \<open>isJumping\<close> read the value of the render that created the callback;
  \<open>setIsJumping(false)\<close> changes the value that React holds.
\<close>

definition Kangaroo_onFrame :: "real \<Rightarrow> real \<Rightarrow> component \<Rightarrow> component" where
  "Kangaroo_onFrame elapsedTime delta c =
     (case kangarooRef (current c) of
        None \<Rightarrow> c
      | Some g \<Rightarrow>
          (let s = current c;
               s1 =
                 (if frame_isJumping c then
                    (let a = s\<lparr>velocityY := velocityY s + gravity * delta\<rparr>;
                         b = a\<lparr>positionY := positionY a + velocityY a * delta\<rparr>;
                         l = (if positionY b \<le> groundLevel
                              then b\<lparr>positionY := groundLevel, velocityY := 0, isJumping := False\<rparr>
                              else b)
                     in l\<lparr>kangarooRef := Some (g\<lparr>position_y := positionY l\<rparr>)\<rparr>)
                  else s)
           in c\<lparr>current :=
                  (if \<not> frame_isJumping c
                   then s1\<lparr>kangarooRef :=
                             map_option (\<lambda>h. h\<lparr>rotation_y := sin (elapsedTime * 3) * 0.05\<rparr>)
                               (kangarooRef s1)\<rparr>
                   else s1)\<rparr>))"

definition Kangaroo_onFrame_p0 :: "real \<Rightarrow> real \<Rightarrow> component \<Rightarrow> component" where
  "Kangaroo_onFrame_p0 elapsedTime delta c =
     (case kangarooRef (current c) of
        None \<Rightarrow> c
      | Some g \<Rightarrow>
          (let s = current c;
               s1 =
                 (if frame_isJumping c then
                    (let a = s\<lparr>velocityY := velocityY s + gravity_p0 * delta\<rparr>;
                         b = a\<lparr>positionY := positionY a + velocityY a * delta\<rparr>;
                         l = (if positionY b \<le> groundLevel_p0
                              then b\<lparr>positionY := groundLevel_p0, velocityY := 0, isJumping := False\<rparr>
                              else b)
                     in l\<lparr>kangarooRef := Some (g\<lparr>position_y := positionY l\<rparr>)\<rparr>)
                  else s)
           in c\<lparr>current :=
                  s1\<lparr>kangarooRef :=
                       map_option (\<lambda>h. h\<lparr>rotation_y := sin (elapsedTime * 2) * 0.1\<rparr>)
                         (kangarooRef s1)\<rparr>\<rparr>))"

text \<open>
  A committed render installs a frame callback that closes over the value React holds;
  the effect of a render replaces the interval by one whose callback closes over the
  \<open>isJumping\<close> of that render.
\<close>

definition Kangaroo_render :: "component \<Rightarrow> component" where
  "Kangaroo_render c = c\<lparr>frame_isJumping := isJumping (current c)\<rparr>"

definition Kangaroo_useEffect :: "component \<Rightarrow> component" where
  "Kangaroo_useEffect c = c\<lparr>interval_isJumping := frame_isJumping c\<rparr>"

text \<open>
  The component after mounting, and a run: any list of frame calls, interval calls,
  renders and effects, in any order.
\<close>

definition Kangaroo_mount :: component where
  "Kangaroo_mount =
     \<lparr>current = Kangaroo_init, frame_isJumping = False, interval_isJumping = False\<rparr>"

definition Kangaroo_mount_p0 :: component where
  "Kangaroo_mount_p0 =
     \<lparr>current = Kangaroo_init_p0, frame_isJumping = False, interval_isJumping = False\<rparr>"

datatype call = FrameCall real real | TimerCall | Render | Effect

fun Kangaroo_call :: "call \<Rightarrow> component \<Rightarrow> component" where
  "Kangaroo_call (FrameCall elapsedTime delta) c = Kangaroo_onFrame elapsedTime delta c"
| "Kangaroo_call TimerCall c = Kangaroo_onInterval c"
| "Kangaroo_call Render c = Kangaroo_render c"
| "Kangaroo_call Effect c = Kangaroo_useEffect c"

fun Kangaroo_call_p0 :: "call \<Rightarrow> component \<Rightarrow> component" where
  "Kangaroo_call_p0 (FrameCall elapsedTime delta) c = Kangaroo_onFrame_p0 elapsedTime delta c"
| "Kangaroo_call_p0 TimerCall c = Kangaroo_onInterval_p0 c"
| "Kangaroo_call_p0 Render c = Kangaroo_render c"
| "Kangaroo_call_p0 Effect c = Kangaroo_useEffect c"

definition Kangaroo_calls :: "call list \<Rightarrow> component \<Rightarrow> component" where
  "Kangaroo_calls cs c = fold Kangaroo_call cs c"

definition Kangaroo_calls_p0 :: "call list \<Rightarrow> component \<Rightarrow> component" where
  "Kangaroo_calls_p0 cs c = fold Kangaroo_call_p0 cs c"

text \<open>
  The runs of the section above: every callback is followed by the render it may have
  requested and by the effect of that render.
\<close>

fun committed :: "event list \<Rightarrow> call list" where
  "committed [] = []"
| "committed (Frame elapsedTime delta # es) =
     FrameCall elapsedTime delta # Render # Effect # committed es"
| "committed (Timer # es) = TimerCall # Render # Effect # committed es"

text \<open>
  What holds of a component in every run, for a ground level \<open>gl\<close> and a jump force
  \<open>jf\<close>: if the value React holds is false, the kangaroo stands on the ground at rest;
  if it is true, the position is not below the ground, and either the frame callback
  reads true as well or the state is the one that a trigger leaves.
\<close>

definition render_inv :: "real \<Rightarrow> real \<Rightarrow> component \<Rightarrow> bool" where
  "render_inv gl jf c \<longleftrightarrow>
     (if isJumping (current c)
      then gl \<le> positionY (current c)
           \<and> (frame_isJumping c \<or> positionY (current c) = gl \<and> velocityY (current c) = jf)
      else positionY (current c) = gl \<and> velocityY (current c) = 0)"

section \<open>Binary64 arithmetic\<close>

text \<open>
  A JavaScript number is an IEEE 754 binary64 value, and each \<open>+\<close>, \<open>-\<close> and \<open>*\<close> of the
  callbacks returns the exact result rounded to the nearest such value, ties to the even
  significand. This section models that on the finite values: a pair \<open>(m, e)\<close> of
  integers stands for \<open>m * 2^e\<close>; an operation computes the exact result as such a pair
  and \<open>round53\<close> keeps its \<open>53\<close> leading bits. Binary64 agrees with this as long as the
  results are zero or of a magnitude from \<open>2^-1022\<close> up to below \<open>2^1024\<close> (no subnormal
  number, no overflow); \<open>normal_range\<close> is a test that implies it for a rounded result,
  and the runs below carry a flag that stays true only if every intermediate result
  passed the test.
\<close>

type_synonym b64 = "int \<times> int"

definition b64_val :: "b64 \<Rightarrow> real" where
  "b64_val x = of_int (fst x) * 2 powi (snd x)"

definition round53 :: "int \<Rightarrow> int \<Rightarrow> b64" where
  "round53 m e =
     (if bitlen \<bar>m\<bar> \<le> 53 then (m, e)
      else let sh = nat (bitlen \<bar>m\<bar> - 53);
               q = \<bar>m\<bar> div 2 ^ sh;
               r = \<bar>m\<bar> mod 2 ^ sh;
               h = 2 ^ (sh - 1);
               q' = (if r < h then q else if h < r then q + 1 else if even q then q else q + 1)
           in (sgn m * q', e + int sh))"

definition b64_add :: "b64 \<Rightarrow> b64 \<Rightarrow> b64" where
  "b64_add x y =
     (let e = min (snd x) (snd y)
      in round53 (fst x * 2 ^ nat (snd x - e) + fst y * 2 ^ nat (snd y - e)) e)"

definition b64_mul :: "b64 \<Rightarrow> b64 \<Rightarrow> b64" where
  "b64_mul x y = round53 (fst x * fst y) (snd x + snd y)"

definition b64_neg :: "b64 \<Rightarrow> b64" where
  "b64_neg x = (- fst x, snd x)"

definition b64_less :: "b64 \<Rightarrow> b64 \<Rightarrow> bool" where
  "b64_less x y =
     (let e = min (snd x) (snd y)
      in fst x * 2 ^ nat (snd x - e) < fst y * 2 ^ nat (snd y - e))"

definition b64_le :: "b64 \<Rightarrow> b64 \<Rightarrow> bool" where
  "b64_le x y \<longleftrightarrow> \<not> b64_less y x"

definition normal_range :: "b64 \<Rightarrow> bool" where
  "normal_range x \<longleftrightarrow> fst x = 0 \<or> (- 1022 \<le> snd x \<and> snd x \<le> 970)"

text \<open>The binary64 values of the literals \<open>1/30\<close> and \<open>1/60\<close>.\<close>

definition b64_30th :: b64 where "b64_30th = (4803839602528529, - 57)"
definition b64_60th :: b64 where "b64_60th = (4803839602528529, - 58)"

text \<open>
  The arithmetic of the Hills callback of \<open>part_000\<close> on \<open>position.x\<close>:
  \<open>x -= delta * 5; if (x < -40) x = 0\<close>. The state is the number of resets so far, the
  offset, and the range flag.
\<close>

fun Hills_useFrame_p0_b64 :: "b64 \<Rightarrow> nat \<times> b64 \<times> bool \<Rightarrow> nat \<times> b64 \<times> bool" where
  "Hills_useFrame_p0_b64 delta (resets, x, ok) =
     (let c = b64_mul delta (5, 0);
          x1 = b64_add x (b64_neg c);
          ok1 = (ok \<and> normal_range c \<and> normal_range x1)
      in if b64_less x1 (- 40, 0) then (Suc resets, (0, 0), ok1) else (resets, x1, ok1))"

text \<open>
  The arithmetic of the Kangaroo callback of \<open>part_000\<close> on \<open>isJumping\<close>, \<open>velocityY\<close>,
  \<open>positionY\<close> and the range flag: \<open>velocityY += gravity * delta\<close>,
  \<open>positionY += velocityY * delta\<close>, and the landing test \<open>positionY <= groundLevel\<close> with
  gravity \<open>-15\<close> and ground level \<open>0\<close>.
\<close>

fun Kangaroo_useFrame_p0_b64 ::
    "b64 \<Rightarrow> bool \<times> b64 \<times> b64 \<times> bool \<Rightarrow> bool \<times> b64 \<times> b64 \<times> bool" where
  "Kangaroo_useFrame_p0_b64 delta (jumping, v, p, ok) =
     (if jumping then
        (let a = b64_mul (- 15, 0) delta;
             v1 = b64_add v a;
             b = b64_mul v1 delta;
             p1 = b64_add p b;
             ok1 = (ok \<and> normal_range a \<and> normal_range v1 \<and> normal_range b \<and> normal_range p1)
         in if b64_le p1 (0, 0) then (False, (0, 0), (0, 0), ok1) else (True, v1, p1, ok1))
      else (jumping, v, p, ok))"

text \<open>
  The same for the Kangaroo callback of \<open>index.tsx\<close>, with gravity \<open>-20\<close>, and the interval
  callbacks of the two files on the same state: \<open>velocityY.current = jumpForce\<close> with jump
  force \<open>9\<close> and \<open>8\<close>.
\<close>

fun Kangaroo_useFrame_b64 ::
    "b64 \<Rightarrow> bool \<times> b64 \<times> b64 \<times> bool \<Rightarrow> bool \<times> b64 \<times> b64 \<times> bool" where
  "Kangaroo_useFrame_b64 delta (jumping, v, p, ok) =
     (if jumping then
        (let a = b64_mul (- 20, 0) delta;
             v1 = b64_add v a;
             b = b64_mul v1 delta;
             p1 = b64_add p b;
             ok1 = (ok \<and> normal_range a \<and> normal_range v1 \<and> normal_range b \<and> normal_range p1)
         in if b64_le p1 (0, 0) then (False, (0, 0), (0, 0), ok1) else (True, v1, p1, ok1))
      else (jumping, v, p, ok))"

fun jumpInterval_b64 :: "bool \<times> b64 \<times> b64 \<times> bool \<Rightarrow> bool \<times> b64 \<times> b64 \<times> bool" where
  "jumpInterval_b64 (jumping, v, p, ok) =
     (if \<not> jumping then (True, (9, 0), p, ok) else (jumping, v, p, ok))"

fun jumpInterval_p0_b64 :: "bool \<times> b64 \<times> b64 \<times> bool \<Rightarrow> bool \<times> b64 \<times> b64 \<times> bool" where
  "jumpInterval_p0_b64 (jumping, v, p, ok) =
     (if \<not> jumping then (True, (8, 0), p, ok) else (jumping, v, p, ok))"

text \<open>
  The state after mounting (the same in both files), the three components of a state
  as a truth value and two real numbers, and the pairs that \<open>round53\<close> returns: a
  significand of at most \<open>53\<close> bits, or \<open>2^53\<close>.
\<close>

definition Kangaroo_init_b64 :: "bool \<times> b64 \<times> b64 \<times> bool" where
  "Kangaroo_init_b64 = (False, (0, 0), (0, 0), True)"

definition jumping_b64 :: "bool \<times> b64 \<times> b64 \<times> bool \<Rightarrow> bool" where
  "jumping_b64 s = fst s"

definition velocity_b64 :: "bool \<times> b64 \<times> b64 \<times> bool \<Rightarrow> real" where
  "velocity_b64 s = b64_val (fst (snd s))"

definition position_b64 :: "bool \<times> b64 \<times> b64 \<times> bool \<Rightarrow> real" where
  "position_b64 s = b64_val (fst (snd (snd s)))"

definition bits53 :: "b64 \<Rightarrow> bool" where
  "bits53 x \<longleftrightarrow> \<bar>fst x\<bar> \<le> 2 ^ 53"

text \<open>
  The binary64 values of the literals \<open>0.25\<close>, \<open>0.2\<close>, \<open>0.1\<close> and \<open>1\<close>: the deltas of
  \<open>four_frames\<close> as JavaScript has them.
\<close>

definition four_frames_b64 :: "b64 list" where
  "four_frames_b64 = [(1, - 2), (3602879701896397, - 54), (3602879701896397, - 55), (1, 0)]"

section \<open>The frame callback, field by field\<close>

lemma Kangaroo_useFrame_unmounted:
  "kangarooRef s = None \<Longrightarrow> Kangaroo_useFrame t d s = s"
  by (simp add: Kangaroo_useFrame_def)

lemma Kangaroo_useFrame_p0_unmounted:
  "kangarooRef s = None \<Longrightarrow> Kangaroo_useFrame_p0 t d s = s"
  by (simp add: Kangaroo_useFrame_p0_def)

lemma Kangaroo_useFrame_grounded:
  "\<not> isJumping s \<Longrightarrow>
   Kangaroo_useFrame t d s =
     s\<lparr>kangarooRef := map_option (\<lambda>h. h\<lparr>rotation_y := sin (t * 3) * 0.05\<rparr>) (kangarooRef s)\<rparr>"
  by (simp add: Kangaroo_useFrame_def split: option.splits)

lemma Kangaroo_useFrame_p0_grounded:
  "\<not> isJumping s \<Longrightarrow>
   Kangaroo_useFrame_p0 t d s =
     s\<lparr>kangarooRef := map_option (\<lambda>h. h\<lparr>rotation_y := sin (t * 2) * 0.1\<rparr>) (kangarooRef s)\<rparr>"
  by (simp add: Kangaroo_useFrame_p0_def split: option.splits)

lemma Kangaroo_useFrame_airborne:
  assumes "kangarooRef s = Some g" and "isJumping s"
  shows "Kangaroo_useFrame t d s =
     (if positionY s + (velocityY s + gravity * d) * d \<le> groundLevel
      then s\<lparr>kangarooRef := Some (g\<lparr>position_y := groundLevel\<rparr>),
              isJumping := False, velocityY := 0, positionY := groundLevel\<rparr>
      else s\<lparr>kangarooRef := Some (g\<lparr>position_y := positionY s + (velocityY s + gravity * d) * d\<rparr>),
              velocityY := velocityY s + gravity * d,
              positionY := positionY s + (velocityY s + gravity * d) * d\<rparr>)"
  using assms by (simp add: Kangaroo_useFrame_def Let_def)

lemma Kangaroo_useFrame_p0_airborne:
  assumes "kangarooRef s = Some g" and "isJumping s"
  shows "Kangaroo_useFrame_p0 t d s =
     (if positionY s + (velocityY s + gravity_p0 * d) * d \<le> groundLevel_p0
      then s\<lparr>kangarooRef := Some (g\<lparr>position_y := groundLevel_p0,
                                      rotation_y := sin (t * 2) * 0.1\<rparr>),
              isJumping := False, velocityY := 0, positionY := groundLevel_p0\<rparr>
      else s\<lparr>kangarooRef := Some (g\<lparr>position_y := positionY s + (velocityY s + gravity_p0 * d) * d,
                                      rotation_y := sin (t * 2) * 0.1\<rparr>),
              velocityY := velocityY s + gravity_p0 * d,
              positionY := positionY s + (velocityY s + gravity_p0 * d) * d\<rparr>)"
  using assms by (simp add: Kangaroo_useFrame_p0_def Let_def)

section \<open>The scrolling groups as instances of \<open>tick\<close>\<close>

lemma tick_offsetX:
  "offsetX (tick dt G) =
     (if offsetX G - speed G * dt < - wrapThreshold G then resetValue G
      else offsetX G - speed G * dt)"
  by (simp add: tick_def Let_def)

lemma Hills_useFrame_tick:
  "Hills_useFrame d (Some g) = Some (g\<lparr>position_x := offsetX (tick d (Hills_group (position_x g)))\<rparr>)"
  by (simp add: Hills_useFrame_def tick_def Hills_group_def Let_def)

lemma Hills_useFrame_bound:
  "\<exists>h. Hills_useFrame d (Some g) = Some h \<and> - 60 \<le> position_x h"
  by (simp add: Hills_useFrame_def Let_def)

lemma Hills_useFrame_fold_bound:
  "- 60 \<le> position_x g \<Longrightarrow>
   \<exists>h. fold Hills_useFrame ds (Some g) = Some h \<and> - 60 \<le> position_x h"
proof (induction ds arbitrary: g)
  case Nil
  then show ?case by simp
next
  case (Cons d ds)
  obtain h where h: "Hills_useFrame d (Some g) = Some h" "- 60 \<le> position_x h"
    using Hills_useFrame_bound by blast
  show ?case using Cons.IH [OF h(2)] h(1) by simp
qed

lemma Hills_useFrame_zero:
  "- 60 \<le> position_x g \<Longrightarrow> Hills_useFrame 0 (Some g) = Some g"
  by (simp add: Hills_useFrame_def Let_def)

lemma Hills_useFrame_reachable_zero:
  "Hills_useFrame 0 (fold Hills_useFrame ds mounted_at_origin) = fold Hills_useFrame ds mounted_at_origin"
proof -
  obtain h where "fold Hills_useFrame ds mounted_at_origin = Some h" "- 60 \<le> position_x h"
    using Hills_useFrame_fold_bound [of "\<lparr>position_x = 0, position_y = 0, rotation_y = 0\<rparr>" ds]
    by (auto simp: mounted_at_origin_def)
  then show ?thesis by (simp add: Hills_useFrame_zero)
qed

lemma Clouds_useFrame_tick:
  "Clouds_useFrame d (Some g) = Some (g\<lparr>position_x := offsetX (tick d (Clouds_group (position_x g)))\<rparr>)"
  by (simp add: Clouds_useFrame_def tick_def Clouds_group_def Let_def)

lemma Clouds_useFrame_bound:
  "\<exists>h. Clouds_useFrame d (Some g) = Some h \<and> - 60 \<le> position_x h"
  by (simp add: Clouds_useFrame_def Let_def)

lemma Clouds_useFrame_fold_bound:
  "- 60 \<le> position_x g \<Longrightarrow>
   \<exists>h. fold Clouds_useFrame ds (Some g) = Some h \<and> - 60 \<le> position_x h"
proof (induction ds arbitrary: g)
  case Nil
  then show ?case by simp
next
  case (Cons d ds)
  obtain h where h: "Clouds_useFrame d (Some g) = Some h" "- 60 \<le> position_x h"
    using Clouds_useFrame_bound by blast
  show ?case using Cons.IH [OF h(2)] h(1) by simp
qed

lemma Clouds_useFrame_zero:
  "- 60 \<le> position_x g \<Longrightarrow> Clouds_useFrame 0 (Some g) = Some g"
  by (simp add: Clouds_useFrame_def Let_def)

lemma Clouds_useFrame_reachable_zero:
  "Clouds_useFrame 0 (fold Clouds_useFrame ds mounted_at_origin) = fold Clouds_useFrame ds mounted_at_origin"
proof -
  obtain h where "fold Clouds_useFrame ds mounted_at_origin = Some h" "- 60 \<le> position_x h"
    using Clouds_useFrame_fold_bound [of "\<lparr>position_x = 0, position_y = 0, rotation_y = 0\<rparr>" ds]
    by (auto simp: mounted_at_origin_def)
  then show ?thesis by (simp add: Clouds_useFrame_zero)
qed

lemma Hills_useFrame_p0_tick:
  "Hills_useFrame_p0 d (Some g) = Some (g\<lparr>position_x := offsetX (tick d (Hills_group_p0 (position_x g)))\<rparr>)"
  by (simp add: Hills_useFrame_p0_def tick_def Hills_group_p0_def Let_def)

lemma Hills_useFrame_p0_bound:
  "\<exists>h. Hills_useFrame_p0 d (Some g) = Some h \<and> - 40 \<le> position_x h"
  by (simp add: Hills_useFrame_p0_def Let_def)

lemma Hills_useFrame_p0_fold_bound:
  "- 40 \<le> position_x g \<Longrightarrow>
   \<exists>h. fold Hills_useFrame_p0 ds (Some g) = Some h \<and> - 40 \<le> position_x h"
proof (induction ds arbitrary: g)
  case Nil
  then show ?case by simp
next
  case (Cons d ds)
  obtain h where h: "Hills_useFrame_p0 d (Some g) = Some h" "- 40 \<le> position_x h"
    using Hills_useFrame_p0_bound by blast
  show ?case using Cons.IH [OF h(2)] h(1) by simp
qed

lemma Hills_useFrame_p0_zero:
  "- 40 \<le> position_x g \<Longrightarrow> Hills_useFrame_p0 0 (Some g) = Some g"
  by (simp add: Hills_useFrame_p0_def Let_def)

lemma Hills_useFrame_p0_reachable_zero:
  "Hills_useFrame_p0 0 (fold Hills_useFrame_p0 ds mounted_at_origin) = fold Hills_useFrame_p0 ds mounted_at_origin"
proof -
  obtain h where "fold Hills_useFrame_p0 ds mounted_at_origin = Some h" "- 40 \<le> position_x h"
    using Hills_useFrame_p0_fold_bound [of "\<lparr>position_x = 0, position_y = 0, rotation_y = 0\<rparr>" ds]
    by (auto simp: mounted_at_origin_def)
  then show ?thesis by (simp add: Hills_useFrame_p0_zero)
qed

lemma Clouds_useFrame_p0_tick:
  "Clouds_useFrame_p0 d (Some g) = Some (g\<lparr>position_x := offsetX (tick d (Clouds_group_p0 (position_x g)))\<rparr>)"
  by (simp add: Clouds_useFrame_p0_def tick_def Clouds_group_p0_def Let_def)

lemma Clouds_useFrame_p0_bound:
  "\<exists>h. Clouds_useFrame_p0 d (Some g) = Some h \<and> - 50 \<le> position_x h"
  by (simp add: Clouds_useFrame_p0_def Let_def)

lemma Clouds_useFrame_p0_fold_bound:
  "- 50 \<le> position_x g \<Longrightarrow>
   \<exists>h. fold Clouds_useFrame_p0 ds (Some g) = Some h \<and> - 50 \<le> position_x h"
proof (induction ds arbitrary: g)
  case Nil
  then show ?case by simp
next
  case (Cons d ds)
  obtain h where h: "Clouds_useFrame_p0 d (Some g) = Some h" "- 50 \<le> position_x h"
    using Clouds_useFrame_p0_bound by blast
  show ?case using Cons.IH [OF h(2)] h(1) by simp
qed

lemma Clouds_useFrame_p0_zero:
  "- 50 \<le> position_x g \<Longrightarrow> Clouds_useFrame_p0 0 (Some g) = Some g"
  by (simp add: Clouds_useFrame_p0_def Let_def)

lemma Clouds_useFrame_p0_reachable_zero:
  "Clouds_useFrame_p0 0 (fold Clouds_useFrame_p0 ds mounted_at_origin) = fold Clouds_useFrame_p0 ds mounted_at_origin"
proof -
  obtain h where "fold Clouds_useFrame_p0 ds mounted_at_origin = Some h" "- 50 \<le> position_x h"
    using Clouds_useFrame_p0_fold_bound [of "\<lparr>position_x = 0, position_y = 0, rotation_y = 0\<rparr>" ds]
    by (auto simp: mounted_at_origin_def)
  then show ?thesis by (simp add: Clouds_useFrame_p0_zero)
qed

section \<open>Invariants of the jump simulator\<close>

lemma Kangaroo_useFrame_mounted:
  "kangarooRef s \<noteq> None \<Longrightarrow> kangarooRef (Kangaroo_useFrame t d s) \<noteq> None"
  by (cases "isJumping s")
     (auto simp: Kangaroo_useFrame_grounded Kangaroo_useFrame_airborne)

lemma Kangaroo_useFrame_p0_mounted:
  "kangarooRef s \<noteq> None \<Longrightarrow> kangarooRef (Kangaroo_useFrame_p0 t d s) \<noteq> None"
  by (cases "isJumping s")
     (auto simp: Kangaroo_useFrame_p0_grounded Kangaroo_useFrame_p0_airborne)

lemma Kangaroo_run_mounted:
  "kangarooRef s \<noteq> None \<Longrightarrow> kangarooRef (Kangaroo_run es s) \<noteq> None"
  unfolding Kangaroo_run_def
proof (induction es arbitrary: s)
  case Nil
  then show ?case by simp
next
  case (Cons e es)
  have "kangarooRef (Kangaroo_event e s) \<noteq> None"
    using Cons.prems
    by (cases e) (simp_all add: Kangaroo_useFrame_mounted jumpInterval_def del: not_None_eq)
  then show ?case using Cons.IH by simp
qed

lemma Kangaroo_run_p0_mounted:
  "kangarooRef s \<noteq> None \<Longrightarrow> kangarooRef (Kangaroo_run_p0 es s) \<noteq> None"
  unfolding Kangaroo_run_p0_def
proof (induction es arbitrary: s)
  case Nil
  then show ?case by simp
next
  case (Cons e es)
  have "kangarooRef (Kangaroo_event_p0 e s) \<noteq> None"
    using Cons.prems
    by (cases e) (simp_all add: Kangaroo_useFrame_p0_mounted jumpInterval_p0_def del: not_None_eq)
  then show ?case using Cons.IH by simp
qed

text \<open>The invariant, split by \<open>isJumping\<close>.\<close>

lemma reach_inv_cases:
  "reach_inv gl jf s \<longleftrightarrow>
     (if isJumping s then gl \<le> positionY s \<and> (positionY s = gl \<longrightarrow> velocityY s = jf)
      else positionY s = gl \<and> velocityY s = 0)"
  unfolding reach_inv_def JumpState_inv_def by (cases "isJumping s") auto

lemma reach_inv_useFrame:
  assumes "reach_inv groundLevel jumpForce s"
  shows "reach_inv groundLevel jumpForce (Kangaroo_useFrame t d s)"
proof (cases "isJumping s")
  case False
  then show ?thesis
    using assms by (simp add: Kangaroo_useFrame_grounded reach_inv_cases)
next
  case True
  show ?thesis
  proof (cases "kangarooRef s")
    case None
    then show ?thesis using assms by (simp add: Kangaroo_useFrame_unmounted)
  next
    case (Some g)
    show ?thesis
      using True by (simp add: Kangaroo_useFrame_airborne [OF Some True] reach_inv_cases)
  qed
qed

lemma reach_inv_jumpInterval:
  "reach_inv groundLevel jumpForce s \<Longrightarrow> reach_inv groundLevel jumpForce (jumpInterval s)"
  by (simp add: jumpInterval_def reach_inv_cases split: if_splits)

lemma reach_inv_run:
  "reach_inv groundLevel jumpForce s \<Longrightarrow> reach_inv groundLevel jumpForce (Kangaroo_run es s)"
  unfolding Kangaroo_run_def
proof (induction es arbitrary: s)
  case Nil
  then show ?case by simp
next
  case (Cons e es)
  have "reach_inv groundLevel jumpForce (Kangaroo_event e s)"
    using Cons.prems
    by (cases e) (simp_all add: reach_inv_useFrame reach_inv_jumpInterval)
  then show ?case using Cons.IH by simp
qed

lemma reach_inv_init: "reach_inv groundLevel jumpForce Kangaroo_init"
  by (simp add: reach_inv_cases Kangaroo_init_def groundLevel_def)

lemma reach_inv_useFrame_p0:
  assumes "reach_inv groundLevel_p0 jumpForce_p0 s"
  shows "reach_inv groundLevel_p0 jumpForce_p0 (Kangaroo_useFrame_p0 t d s)"
proof (cases "isJumping s")
  case False
  then show ?thesis
    using assms by (simp add: Kangaroo_useFrame_p0_grounded reach_inv_cases)
next
  case True
  show ?thesis
  proof (cases "kangarooRef s")
    case None
    then show ?thesis using assms by (simp add: Kangaroo_useFrame_p0_unmounted)
  next
    case (Some g)
    show ?thesis
      using True by (simp add: Kangaroo_useFrame_p0_airborne [OF Some True] reach_inv_cases)
  qed
qed

lemma reach_inv_jumpInterval_p0:
  "reach_inv groundLevel_p0 jumpForce_p0 s \<Longrightarrow> reach_inv groundLevel_p0 jumpForce_p0 (jumpInterval_p0 s)"
  by (simp add: jumpInterval_p0_def reach_inv_cases split: if_splits)

lemma reach_inv_run_p0:
  "reach_inv groundLevel_p0 jumpForce_p0 s \<Longrightarrow> reach_inv groundLevel_p0 jumpForce_p0 (Kangaroo_run_p0 es s)"
  unfolding Kangaroo_run_p0_def
proof (induction es arbitrary: s)
  case Nil
  then show ?case by simp
next
  case (Cons e es)
  have "reach_inv groundLevel_p0 jumpForce_p0 (Kangaroo_event_p0 e s)"
    using Cons.prems
    by (cases e) (simp_all add: reach_inv_useFrame_p0 reach_inv_jumpInterval_p0)
  then show ?case using Cons.IH by simp
qed

lemma reach_inv_init_p0: "reach_inv groundLevel_p0 jumpForce_p0 Kangaroo_init_p0"
  by (simp add: reach_inv_cases Kangaroo_init_p0_def groundLevel_p0_def)

lemma Kangaroo_useFrame_zero:
  assumes inv: "reach_inv groundLevel jumpForce s" and m: "kangarooRef s \<noteq> None"
  shows "(isJumping s \<and> positionY s = groundLevel \<longrightarrow>
            velocityY s = jumpForce
            \<and> \<not> isJumping (Kangaroo_useFrame t 0 s)
            \<and> velocityY (Kangaroo_useFrame t 0 s) = 0
            \<and> positionY (Kangaroo_useFrame t 0 s) = groundLevel)
       \<and> (\<not> (isJumping s \<and> positionY s = groundLevel) \<longrightarrow>
            isJumping (Kangaroo_useFrame t 0 s) = isJumping s
            \<and> velocityY (Kangaroo_useFrame t 0 s) = velocityY s
            \<and> positionY (Kangaroo_useFrame t 0 s) = positionY s)"
proof (cases "isJumping s")
  case False
  then show ?thesis by (simp add: Kangaroo_useFrame_grounded)
next
  case True
  from m obtain g where g: "kangarooRef s = Some g" by blast
  have ge: "groundLevel \<le> positionY s"
    and v: "positionY s = groundLevel \<longrightarrow> velocityY s = jumpForce"
    using inv True by (simp_all add: reach_inv_cases)
  show ?thesis
    using True ge v by (auto simp: Kangaroo_useFrame_airborne [OF g True])
qed

lemma Kangaroo_init_mounted: "kangarooRef Kangaroo_init \<noteq> None"
  by (simp add: Kangaroo_init_def)

lemma Kangaroo_useFrame_p0_zero:
  assumes inv: "reach_inv groundLevel_p0 jumpForce_p0 s" and m: "kangarooRef s \<noteq> None"
  shows "(isJumping s \<and> positionY s = groundLevel_p0 \<longrightarrow>
            velocityY s = jumpForce_p0
            \<and> \<not> isJumping (Kangaroo_useFrame_p0 t 0 s)
            \<and> velocityY (Kangaroo_useFrame_p0 t 0 s) = 0
            \<and> positionY (Kangaroo_useFrame_p0 t 0 s) = groundLevel_p0)
       \<and> (\<not> (isJumping s \<and> positionY s = groundLevel_p0) \<longrightarrow>
            isJumping (Kangaroo_useFrame_p0 t 0 s) = isJumping s
            \<and> velocityY (Kangaroo_useFrame_p0 t 0 s) = velocityY s
            \<and> positionY (Kangaroo_useFrame_p0 t 0 s) = positionY s)"
proof (cases "isJumping s")
  case False
  then show ?thesis by (simp add: Kangaroo_useFrame_p0_grounded)
next
  case True
  from m obtain g where g: "kangarooRef s = Some g" by blast
  have ge: "groundLevel_p0 \<le> positionY s"
    and v: "positionY s = groundLevel_p0 \<longrightarrow> velocityY s = jumpForce_p0"
    using inv True by (simp_all add: reach_inv_cases)
  show ?thesis
    using True ge v by (auto simp: Kangaroo_useFrame_p0_airborne [OF g True])
qed

lemma Kangaroo_init_p0_mounted: "kangarooRef Kangaroo_init_p0 \<noteq> None"
  by (simp add: Kangaroo_init_p0_def)

section \<open>The two fixed-step scenarios\<close>

lemma Hills_resets_p0_snoc:
  "Hills_resets_p0 (ds @ [d]) r =
     Hills_resets_p0 ds r
     + (case fold Hills_useFrame_p0 ds r of
          None \<Rightarrow> 0
        | Some g \<Rightarrow> (if position_x g - d * 5 < - 40 then 1 else 0))"
  by (induction ds arbitrary: r) simp_all

lemma replicate_snoc: "replicate (Suc k) x = replicate k x @ [x]"
  by (simp add: replicate_append_same)

lemma Hills_p0_fixed_step:
  "k \<le> 240 \<Longrightarrow>
     fold Hills_useFrame_p0 (replicate k (1/30)) mounted_at_origin
       = Some \<lparr>position_x = - real k / 6, position_y = 0, rotation_y = 0\<rparr>
     \<and> Hills_resets_p0 (replicate k (1/30)) mounted_at_origin = 0"
proof (induction k)
  case 0
  show ?case by (simp add: mounted_at_origin_def)
next
  case (Suc k)
  then have IH: "fold Hills_useFrame_p0 (replicate k (1/30)) mounted_at_origin
       = Some \<lparr>position_x = - real k / 6, position_y = 0, rotation_y = 0\<rparr>"
     "Hills_resets_p0 (replicate k (1/30)) mounted_at_origin = 0"
    and k: "real k + 1 \<le> 240"
    by simp_all
  have no: "\<not> (- real k / 6 - (1/30) * 5 < - 40)"
    using k by simp
  show ?case
    unfolding replicate_snoc fold_append Hills_resets_p0_snoc comp_def IH
    using no by (simp add: Hills_useFrame_p0_def Let_def field_simps)
qed

lemma Hills_p0_tick_241:
  "fold Hills_useFrame_p0 (replicate 241 (1/30)) mounted_at_origin = mounted_at_origin
   \<and> Hills_resets_p0 (replicate 241 (1/30)) mounted_at_origin = 1"
proof -
  have r: "replicate 241 (1/30::real) = replicate 240 (1/30) @ [1/30]"
    using replicate_snoc [of 240 "1/30::real"] by simp
  show ?thesis
    unfolding r fold_append Hills_resets_p0_snoc comp_def
    using Hills_p0_fixed_step [of 240]
    by (simp add: Hills_useFrame_p0_def Let_def mounted_at_origin_def)
qed

lemma fixed_step_Suc:
  "fixed_step dt (Suc n) = fixed_step dt n @ [Frame (real (Suc n) * dt) dt]"
  by (simp add: fixed_step_def)

lemma scenario_jump_0: "scenario_jump 0 = jumpInterval_p0 Kangaroo_init_p0"
  by (simp add: scenario_jump_def fixed_step_def Kangaroo_run_p0_def)

lemma scenario_jump_Suc:
  "scenario_jump (Suc n) = Kangaroo_useFrame_p0 (real (Suc n) * (1/60)) (1/60) (scenario_jump n)"
  by (simp add: scenario_jump_def fixed_step_Suc Kangaroo_run_p0_def)

lemma scenario_jump_mounted: "kangarooRef (scenario_jump n) \<noteq> None"
  unfolding scenario_jump_def
  by (rule Kangaroo_run_p0_mounted) (simp add: Kangaroo_init_p0_def)

lemma scenario_jump_airborne:
  "n \<le> 62 \<Longrightarrow>
     isJumping (scenario_jump n)
     \<and> velocityY (scenario_jump n) = 8 - real n / 4
     \<and> positionY (scenario_jump n) = real n * (63 - real n) / 480"
proof (induction n)
  case 0
  show ?case
    by (simp add: scenario_jump_0 jumpInterval_p0_def Kangaroo_init_p0_def jumpForce_p0_def)
next
  case (Suc n)
  let ?s = "scenario_jump n"
  from Suc have j: "isJumping ?s" and v: "velocityY ?s = 8 - real n / 4"
    and p: "positionY ?s = real n * (63 - real n) / 480" and n: "real n \<le> 61"
    by simp_all
  obtain g where g: "kangarooRef ?s = Some g"
    using scenario_jump_mounted [of n] by blast
  have pos: "0 < (real n + 1) * (62 - real n)"
    using n by (intro mult_pos_pos) simp_all
  have up: "\<not> (positionY ?s + (velocityY ?s + gravity_p0 * (1/60)) * (1/60) \<le> groundLevel_p0)"
    using pos unfolding v p gravity_p0_def groundLevel_p0_def by (simp add: field_simps)
  have fields: "isJumping (Kangaroo_useFrame_p0 (real (Suc n) * (1/60)) (1/60) ?s)"
    "velocityY (Kangaroo_useFrame_p0 (real (Suc n) * (1/60)) (1/60) ?s)
       = velocityY ?s + gravity_p0 * (1/60)"
    "positionY (Kangaroo_useFrame_p0 (real (Suc n) * (1/60)) (1/60) ?s)
       = positionY ?s + (velocityY ?s + gravity_p0 * (1/60)) * (1/60)"
    using up j by (simp_all add: Kangaroo_useFrame_p0_airborne [OF g j])
  have "velocityY ?s + gravity_p0 * (1/60) = 8 - real (Suc n) / 4"
    and "positionY ?s + (velocityY ?s + gravity_p0 * (1/60)) * (1/60)
           = real (Suc n) * (63 - real (Suc n)) / 480"
    unfolding v p gravity_p0_def by (simp_all add: field_simps)
  with fields show ?case
    by (simp only: scenario_jump_Suc simp_thms)
qed

lemma scenario_jump_landing:
  "\<not> isJumping (scenario_jump 63) \<and> velocityY (scenario_jump 63) = 0
   \<and> positionY (scenario_jump 63) = 0"
proof -
  let ?s = "scenario_jump 62"
  have j: "isJumping ?s" and v: "velocityY ?s = 8 - 62 / 4"
    and p: "positionY ?s = 62 * (63 - 62) / 480"
    using scenario_jump_airborne [of 62] by simp_all
  obtain g where g: "kangarooRef ?s = Some g"
    using scenario_jump_mounted [of 62] by blast
  have step: "scenario_jump 63 = Kangaroo_useFrame_p0 (63 * (1/60)) (1/60) ?s"
    using scenario_jump_Suc [of 62] by simp
  show ?thesis
    unfolding step
    by (simp add: Kangaroo_useFrame_p0_airborne [OF g j] v p gravity_p0_def groundLevel_p0_def)
qed

lemma scenario_jump_after_landing:
  "\<not> isJumping (scenario_jump (63 + m)) \<and> velocityY (scenario_jump (63 + m)) = 0
   \<and> positionY (scenario_jump (63 + m)) = 0"
proof (induction m)
  case 0
  show ?case using scenario_jump_landing by simp
next
  case (Suc m)
  have step: "scenario_jump (63 + Suc m)
      = Kangaroo_useFrame_p0 (real (Suc (63 + m)) * (1/60)) (1/60) (scenario_jump (63 + m))"
    using scenario_jump_Suc [of "63 + m"] by simp
  show ?case
    unfolding step using Suc by (simp add: Kangaroo_useFrame_p0_grounded)
qed

lemma scenario_jump_above_ground: "groundLevel_p0 \<le> positionY (scenario_jump n)"
  using reach_inv_run_p0 [OF reach_inv_init_p0, of "Timer # fixed_step (1/60) n"]
  by (simp add: scenario_jump_def reach_inv_cases split: if_splits)

section \<open>Spacing of the features\<close>

lemma Hills_init_gaps: "gaps (map feature_x (Hills_init random)) = replicate 29 6"
  by (simp add: Hills_init_def upt_rec eval_nat_numeral del: upt_Suc)

lemma Hills_init_p0_gaps: "gaps (map feature_x (Hills_init_p0 random)) = replicate 19 8"
  by (simp add: Hills_init_p0_def upt_rec eval_nat_numeral del: upt_Suc)

lemma Clouds_positions_gaps: "gaps (map fst Clouds_positions) = replicate 6 15"
  by (simp add: Clouds_positions_def eval_nat_numeral)

lemma Clouds_positions_p0_gaps: "gaps (map fst Clouds_positions_p0) = replicate 4 20"
  by (simp add: Clouds_positions_p0_def eval_nat_numeral)

text \<open>
  The clouds of \<open>part_000\<close> are twenty apart and wrap after fifty, which is not a whole
  number of gaps.
\<close>

lemma Clouds_p0_wrap_not_multiple:
  "wrapThreshold (Clouds_group_p0 x) - resetValue (Clouds_group_p0 x) = 50
   \<and> \<not> (\<exists>k::int. (50::real) = of_int k * 20)"
proof -
  have "(50::real) \<noteq> of_int k * 20" for k :: int
  proof
    assume "(50::real) = of_int k * 20"
    then have "(of_int (5::int)::real) = of_int (k * 2)" by simp
    then have "(5::int) = k * 2" by (simp only: of_int_eq_iff)
    then show False by presburger
  qed
  then show ?thesis by (simp add: Clouds_group_p0_def)
qed

section \<open>A jump, frame by frame\<close>

lemma trace_0: "trace f es s ! 0 = s"
  by (cases es) simp_all

lemma trace_Suc:
  "k < length es \<Longrightarrow> trace f es s ! Suc k = f (es ! k) (trace f es s ! k)"
proof (induction es arbitrary: s k)
  case Nil
  then show ?case by simp
next
  case (Cons e es)
  show ?case
  proof (cases k)
    case 0
    then show ?thesis by (simp add: trace_0)
  next
    case (Suc k')
    then have "k' < length es" using Cons.prems by simp
    from Cons.IH [OF this, of "f e s"] show ?thesis using Suc by simp
  qed
qed

lemma episode_generic:
  fixes f :: "event \<Rightarrow> kangaroo \<Rightarrow> kangaroo" and g gl :: real
  assumes air: "\<And>t d a. isJumping a \<Longrightarrow> kangarooRef a \<noteq> None \<Longrightarrow>
                  (if positionY a + (velocityY a + g * d) * d \<le> gl
                   then \<not> isJumping (f (Frame t d) a) \<and> velocityY (f (Frame t d) a) = 0
                        \<and> positionY (f (Frame t d) a) = gl
                   else isJumping (f (Frame t d) a)
                        \<and> velocityY (f (Frame t d) a) = velocityY a + g * d
                        \<and> positionY (f (Frame t d) a) = positionY a + (velocityY a + g * d) * d)"
    and ground: "\<And>t d a. \<not> isJumping a \<Longrightarrow> \<not> isJumping (f (Frame t d) a)"
    and mount: "\<And>e a. kangarooRef a \<noteq> None \<Longrightarrow> kangarooRef (f e a) \<noteq> None"
    and g: "g < 0"
    and frames: "\<forall>e\<in>set es. positive_frame e"
    and s: "kangarooRef s \<noteq> None" "gl \<le> positionY s"
    and k: "k < length es"
    and tr: "tr = trace f es s"
    and airk: "isJumping (tr ! k)"
  shows "(\<forall>j\<le>k. isJumping (tr ! j))
       \<and> (\<forall>i j. i < j \<and> j \<le> k \<longrightarrow> velocityY (tr ! j) < velocityY (tr ! i))
       \<and> (isJumping (tr ! Suc k) \<longrightarrow>
            velocityY (tr ! Suc k) < velocityY (tr ! k)
            \<and> (0 < velocityY (tr ! Suc k) \<longrightarrow> positionY (tr ! k) < positionY (tr ! Suc k))
            \<and> (velocityY (tr ! Suc k) = 0 \<longrightarrow> positionY (tr ! Suc k) = positionY (tr ! k))
            \<and> (velocityY (tr ! Suc k) < 0 \<longrightarrow> positionY (tr ! Suc k) < positionY (tr ! k)))
       \<and> (\<not> isJumping (tr ! Suc k) \<longrightarrow>
            positionY (tr ! Suc k) = gl \<and> velocityY (tr ! Suc k) = 0
            \<and> positionY (tr ! Suc k) \<le> positionY (tr ! k)
            \<and> (0 < k \<longrightarrow> positionY (tr ! Suc k) < positionY (tr ! k)))
       \<and> ((\<exists>j<k. positionY (tr ! Suc j) \<le> positionY (tr ! j)) \<longrightarrow>
            positionY (tr ! Suc k) < positionY (tr ! k))"
proof -
  have t0: "tr ! 0 = s" by (simp add: tr trace_0)
  have tS: "tr ! Suc j = f (es ! j) (tr ! j)" if "j < length es" for j
    using that by (simp add: tr trace_Suc)
  have fr: "\<exists>t d. es ! j = Frame t d \<and> 0 < d" if "j < length es" for j
  proof -
    have "positive_frame (es ! j)" using frames that by simp
    then show ?thesis by (cases "es ! j") simp_all
  qed
  have m: "kangarooRef (tr ! j) \<noteq> None" if "j \<le> length es" for j
    using that
  proof (induction j)
    case 0
    show ?case using s(1) by (simp add: t0)
  next
    case (Suc j)
    then have "kangarooRef (tr ! j) \<noteq> None" and "j < length es" by simp_all
    then show ?case using mount by (simp add: tS)
  qed
  have stay: "\<not> isJumping (tr ! (j + n))" if "\<not> isJumping (tr ! j)" "j + n \<le> length es" for j n
    using that(2)
  proof (induction n)
    case 0
    show ?case using that(1) by simp
  next
    case (Suc n)
    then have a: "\<not> isJumping (tr ! (j + n))" and b: "j + n < length es" by simp_all
    obtain t d where "es ! (j + n) = Frame t d" using fr [OF b] by blast
    then have "tr ! Suc (j + n) = f (Frame t d) (tr ! (j + n))" using tS [OF b] by simp
    then show ?case using ground [OF a] by simp
  qed
  have A1: "isJumping (tr ! j)" if "j \<le> k" for j
  proof (rule ccontr)
    assume "\<not> isJumping (tr ! j)"
    then have "\<not> isJumping (tr ! (j + (k - j)))"
      using that k by (intro stay) simp_all
    then show False using airk that by simp
  qed
  have E: "\<exists>d. 0 < d \<and>
             (if positionY (tr ! j) + (velocityY (tr ! j) + g * d) * d \<le> gl
              then \<not> isJumping (tr ! Suc j) \<and> velocityY (tr ! Suc j) = 0
                   \<and> positionY (tr ! Suc j) = gl
              else isJumping (tr ! Suc j)
                   \<and> velocityY (tr ! Suc j) = velocityY (tr ! j) + g * d
                   \<and> positionY (tr ! Suc j) = positionY (tr ! j) + (velocityY (tr ! j) + g * d) * d)"
    if "j \<le> k" for j
  proof -
    have jl: "j < length es" using that k by simp
    obtain t d where e: "es ! j = Frame t d" and d: "0 < d" using fr [OF jl] by blast
    have "tr ! Suc j = f (Frame t d) (tr ! j)" using tS [OF jl] e by simp
    moreover have mj: "kangarooRef (tr ! j) \<noteq> None" using m [of j] jl by simp
    moreover have aj: "isJumping (tr ! j)" using A1 [OF that] .
    ultimately show ?thesis
      using air [OF aj mj, of d t] d by (intro exI [of _ d]) simp
  qed
  have P: "gl < positionY (tr ! Suc j)" if "Suc j \<le> k" for j
  proof -
    have "isJumping (tr ! Suc j)" using A1 [OF that] .
    moreover have "j \<le> k" using that by simp
    ultimately show ?thesis using E [of j] by (auto split: if_splits)
  qed
  have P0: "gl \<le> positionY (tr ! j)" if "j \<le> k" for j
  proof (cases j)
    case 0
    then show ?thesis using t0 s(2) by simp
  next
    case (Suc i)
    then show ?thesis using P [of i] that by simp
  qed
  have V: "velocityY (tr ! Suc j) < velocityY (tr ! j)" if "Suc j \<le> k" for j
  proof -
    have a: "isJumping (tr ! Suc j)" using A1 [OF that] .
    have "j \<le> k" using that by simp
    from E [OF this] obtain d where d: "0 < d"
      and "velocityY (tr ! Suc j) = velocityY (tr ! j) + g * d"
      using a by (auto split: if_splits)
    moreover have "g * d < 0" using g d by (simp add: mult_neg_pos)
    ultimately show ?thesis by simp
  qed
  have Vs: "velocityY (tr ! j) < velocityY (tr ! i)" if "i < j" "j \<le> k" for i j
    using that
  proof (induction j)
    case 0
    then show ?case by simp
  next
    case (Suc j)
    have step: "velocityY (tr ! Suc j) < velocityY (tr ! j)" using V [OF Suc.prems(2)] .
    show ?case
    proof (cases "i = j")
      case True
      then show ?thesis using step by simp
    next
      case False
      then have "i < j" "j \<le> k" using Suc.prems by simp_all
      from Suc.IH [OF this] step show ?thesis by simp
    qed
  qed
  obtain d where d: "0 < d"
    and Ek: "if positionY (tr ! k) + (velocityY (tr ! k) + g * d) * d \<le> gl
             then \<not> isJumping (tr ! Suc k) \<and> velocityY (tr ! Suc k) = 0
                  \<and> positionY (tr ! Suc k) = gl
             else isJumping (tr ! Suc k)
                  \<and> velocityY (tr ! Suc k) = velocityY (tr ! k) + g * d
                  \<and> positionY (tr ! Suc k) = positionY (tr ! k) + (velocityY (tr ! k) + g * d) * d"
    using E [of k] by blast
  have gd: "g * d < 0" using g d by (simp add: mult_neg_pos)
  have pk: "gl \<le> positionY (tr ! k)" using P0 [of k] by simp
  have pk': "gl < positionY (tr ! k)" if kpos: "0 < k"
  proof -
    obtain i where i: "k = Suc i" using kpos gr0_implies_Suc by blast
    then have "Suc i \<le> k" by simp
    from P [OF this] show ?thesis by (simp only: i)
  qed
  have flying: "velocityY (tr ! Suc k) < velocityY (tr ! k)
            \<and> (0 < velocityY (tr ! Suc k) \<longrightarrow> positionY (tr ! k) < positionY (tr ! Suc k))
            \<and> (velocityY (tr ! Suc k) = 0 \<longrightarrow> positionY (tr ! Suc k) = positionY (tr ! k))
            \<and> (velocityY (tr ! Suc k) < 0 \<longrightarrow> positionY (tr ! Suc k) < positionY (tr ! k))"
    if a: "isJumping (tr ! Suc k)"
  proof -
    have v: "velocityY (tr ! Suc k) = velocityY (tr ! k) + g * d"
      and p: "positionY (tr ! Suc k) = positionY (tr ! k) + velocityY (tr ! Suc k) * d"
      using Ek a by (auto split: if_splits)
    have "0 < velocityY (tr ! Suc k) \<Longrightarrow> 0 < velocityY (tr ! Suc k) * d"
      using d by (simp add: mult_pos_pos)
    moreover have "velocityY (tr ! Suc k) < 0 \<Longrightarrow> velocityY (tr ! Suc k) * d < 0"
      using d by (simp add: mult_neg_pos)
    ultimately show ?thesis using v p gd by auto
  qed
  have landed: "positionY (tr ! Suc k) = gl \<and> velocityY (tr ! Suc k) = 0
            \<and> positionY (tr ! Suc k) \<le> positionY (tr ! k)
            \<and> (0 < k \<longrightarrow> positionY (tr ! Suc k) < positionY (tr ! k))"
    if a: "\<not> isJumping (tr ! Suc k)"
  proof -
    have "positionY (tr ! Suc k) = gl" "velocityY (tr ! Suc k) = 0"
      using Ek a by (auto split: if_splits)
    then show ?thesis using pk pk' by simp
  qed
  have fall: "positionY (tr ! Suc k) < positionY (tr ! k)"
    if "\<exists>j<k. positionY (tr ! Suc j) \<le> positionY (tr ! j)"
  proof -
    from that obtain j where j: "j < k" and le: "positionY (tr ! Suc j) \<le> positionY (tr ! j)"
      by blast
    have aj: "isJumping (tr ! Suc j)" using A1 [of "Suc j"] j by simp
    from E [of j] j obtain dj where dj: "0 < dj"
      and pj: "positionY (tr ! Suc j) = positionY (tr ! j) + velocityY (tr ! Suc j) * dj"
      using aj by (auto split: if_splits)
    have "velocityY (tr ! Suc j) * dj \<le> 0" using le pj by simp
    then have vj: "velocityY (tr ! Suc j) \<le> 0"
      using dj by (simp add: mult_le_0_iff)
    have vk: "velocityY (tr ! k) \<le> 0"
    proof (cases "Suc j = k")
      case True
      then show ?thesis using vj by simp
    next
      case False
      then have "Suc j < k" using j by simp
      from Vs [OF this] vj show ?thesis by simp
    qed
    have kpos: "0 < k" using j by simp
    show ?thesis
    proof (cases "isJumping (tr ! Suc k)")
      case True
      from flying [OF True] vk show ?thesis by simp
    next
      case False
      from landed [OF False] kpos show ?thesis by simp
    qed
  qed
  show ?thesis
    using A1 Vs flying landed fall by blast
qed


lemma Kangaroo_event_airborne:
  assumes "isJumping a" and "kangarooRef a \<noteq> None"
  shows "if positionY a + (velocityY a + gravity * d) * d \<le> groundLevel
         then \<not> isJumping (Kangaroo_event (Frame t d) a)
              \<and> velocityY (Kangaroo_event (Frame t d) a) = 0
              \<and> positionY (Kangaroo_event (Frame t d) a) = groundLevel
         else isJumping (Kangaroo_event (Frame t d) a)
              \<and> velocityY (Kangaroo_event (Frame t d) a) = velocityY a + gravity * d
              \<and> positionY (Kangaroo_event (Frame t d) a)
                  = positionY a + (velocityY a + gravity * d) * d"
proof -
  from assms(2) obtain g where g: "kangarooRef a = Some g" by blast
  show ?thesis
    using assms(1) by (simp add: Kangaroo_useFrame_airborne [OF g assms(1)])
qed

lemma Kangaroo_event_p0_airborne:
  assumes "isJumping a" and "kangarooRef a \<noteq> None"
  shows "if positionY a + (velocityY a + gravity_p0 * d) * d \<le> groundLevel_p0
         then \<not> isJumping (Kangaroo_event_p0 (Frame t d) a)
              \<and> velocityY (Kangaroo_event_p0 (Frame t d) a) = 0
              \<and> positionY (Kangaroo_event_p0 (Frame t d) a) = groundLevel_p0
         else isJumping (Kangaroo_event_p0 (Frame t d) a)
              \<and> velocityY (Kangaroo_event_p0 (Frame t d) a) = velocityY a + gravity_p0 * d
              \<and> positionY (Kangaroo_event_p0 (Frame t d) a)
                  = positionY a + (velocityY a + gravity_p0 * d) * d"
proof -
  from assms(2) obtain g where g: "kangarooRef a = Some g" by blast
  show ?thesis
    using assms(1) by (simp add: Kangaroo_useFrame_p0_airborne [OF g assms(1)])
qed

lemma Kangaroo_event_grounded:
  "\<not> isJumping a \<Longrightarrow> \<not> isJumping (Kangaroo_event (Frame t d) a)"
  by (simp add: Kangaroo_useFrame_grounded)

lemma Kangaroo_event_p0_grounded:
  "\<not> isJumping a \<Longrightarrow> \<not> isJumping (Kangaroo_event_p0 (Frame t d) a)"
  by (simp add: Kangaroo_useFrame_p0_grounded)

lemma Kangaroo_event_mounted:
  "kangarooRef a \<noteq> None \<Longrightarrow> kangarooRef (Kangaroo_event e a) \<noteq> None"
  by (cases e) (simp_all add: Kangaroo_useFrame_mounted jumpInterval_def del: not_None_eq)

lemma Kangaroo_event_p0_mounted:
  "kangarooRef a \<noteq> None \<Longrightarrow> kangarooRef (Kangaroo_event_p0 e a) \<noteq> None"
  by (cases e) (simp_all add: Kangaroo_useFrame_p0_mounted jumpInterval_p0_def del: not_None_eq)

text \<open>The run of \<open>four_frames\<close> after a trigger, in either file.\<close>

lemma four_frames_trace:
  "map (\<lambda>s. (isJumping s, velocityY s, positionY s))
     (trace Kangaroo_event four_frames (jumpInterval Kangaroo_init))
   = [(True, 9, 0), (True, 4, 1), (True, 0, 1), (True, - 2, 4/5), (False, 0, 0)]"
  by (simp add: four_frames_def jumpInterval_def Kangaroo_init_def Kangaroo_useFrame_def
      jumpForce_def gravity_def groundLevel_def)

lemma four_frames_trace_p0:
  "map (\<lambda>s. (isJumping s, velocityY s, positionY s))
     (trace Kangaroo_event_p0 four_frames (jumpInterval_p0 Kangaroo_init_p0))
   = [(True, 8, 0), (True, 17/4, 17/16), (True, 5/4, 21/16), (True, - 1/4, 103/80), (False, 0, 0)]"
  by (simp add: four_frames_def jumpInterval_p0_def Kangaroo_init_p0_def Kangaroo_useFrame_p0_def
      jumpForce_p0_def gravity_p0_def groundLevel_p0_def)

section \<open>Properties of the binary64 model\<close>

text \<open>
  \<open>round53\<close> returns a significand of at most \<open>53\<close> bits (or \<open>2^53\<close> itself, after a
  carry), and its value differs from the exact value by at most half a unit of the last
  place kept. Hence sums and products are the exact results rounded, and \<open>b64_less\<close> is
  the order of the values.
\<close>

lemma round53_exact: "bitlen \<bar>m\<bar> \<le> 53 \<Longrightarrow> round53 m e = (m, e)"
  by (simp add: round53_def)

lemma round53_cases:
  assumes "\<not> bitlen \<bar>m\<bar> \<le> 53"
  obtains sh q' where "round53 m e = (sgn m * q', e + int sh)" and "0 < sh"
    and "\<bar>m\<bar> < 2 ^ (53 + sh)" and "0 \<le> q'" and "q' \<le> 2 ^ 53"
    and "\<bar>q' * 2 ^ sh - \<bar>m\<bar>\<bar> * 2 \<le> 2 ^ sh"
proof -
  define sh where "sh = nat (bitlen \<bar>m\<bar> - 53)"
  define q where "q = \<bar>m\<bar> div 2 ^ sh"
  define r where "r = \<bar>m\<bar> mod 2 ^ sh"
  define h :: int where "h = 2 ^ (sh - 1)"
  define q' where "q' = (if r < h then q else if h < r then q + 1 else if even q then q else q + 1)"
  have res: "round53 m e = (sgn m * q', e + int sh)"
    using assms by (simp add: round53_def Let_def sh_def q_def r_def h_def q'_def)
  have sh: "0 < sh" using assms by (simp add: sh_def)
  have mpos: "0 < \<bar>m\<bar>" using assms by (cases "m = 0") simp_all
  have "nat (bitlen \<bar>m\<bar>) = 53 + sh" using assms by (simp add: sh_def)
  then have bound: "\<bar>m\<bar> < 2 ^ (53 + sh)"
    using bitlen_bounds [OF mpos] by simp
  have dm: "\<bar>m\<bar> = q * 2 ^ sh + r" by (simp only: q_def r_def div_mult_mod_eq)
  have r: "0 \<le> r" "r < 2 ^ sh" by (simp_all add: r_def)
  have hh: "2 * h = 2 ^ sh"
    using sh by (cases sh) (simp_all add: h_def)
  have q0: "0 \<le> q" using mpos by (simp add: q_def pos_imp_zdiv_nonneg_iff)
  have "q * 2 ^ sh \<le> \<bar>m\<bar>" using dm r(1) by simp
  also have "\<dots> < 2 ^ 53 * 2 ^ sh" using bound by (simp only: power_add)
  finally have q53: "q < 2 ^ 53" by (rule mult_right_less_imp_less) simp
  have q'0: "0 \<le> q'" and q'53: "q' \<le> 2 ^ 53"
    using q0 q53 by (auto simp: q'_def)
  have near: "\<bar>q' * 2 ^ sh - \<bar>m\<bar>\<bar> * 2 \<le> 2 ^ sh"
  proof -
    have "(q' = q \<and> r \<le> h) \<or> (q' = q + 1 \<and> h \<le> r)"
      by (simp add: q'_def)
    then consider "q' = q" "r \<le> h" | "q' = q + 1" "h \<le> r"
      by blast
    then show ?thesis
    proof cases
      case 1
      then have "q' * 2 ^ sh - \<bar>m\<bar> = - r" by (simp add: dm)
      then show ?thesis using r 1 hh by simp
    next
      case 2
      then have "q' * 2 ^ sh - \<bar>m\<bar> = 2 ^ sh - r" by (simp add: dm algebra_simps)
      then show ?thesis using r 2 hh by simp
    qed
  qed
  show thesis using that [OF res sh bound q'0 q'53 near] .
qed

lemma round53_mantissa: "\<bar>fst (round53 m e)\<bar> \<le> 2 ^ 53"
proof (cases "bitlen \<bar>m\<bar> \<le> 53")
  case True
  show ?thesis
  proof (cases "m = 0")
    case True
    then show ?thesis by (simp add: round53_def)
  next
    case False
    then have "\<bar>m\<bar> < 2 ^ nat (bitlen \<bar>m\<bar>)" using bitlen_bounds [of "\<bar>m\<bar>"] by simp
    also have "\<dots> \<le> (2::int) ^ 53"
      using True by (intro power_increasing) simp_all
    finally show ?thesis using True by (simp add: round53_def)
  qed
next
  case False
  then obtain sh q' where "round53 m e = (sgn m * q', e + int sh)" "0 \<le> q'" "q' \<le> 2 ^ 53"
    by (rule round53_cases)
  then show ?thesis by (simp add: abs_mult abs_sgn_eq)
qed

lemma round53_error:
  "\<bar>b64_val (round53 m e) - of_int m * 2 powi e\<bar> * 2 \<le> 2 powi (snd (round53 m e))"
proof (cases "bitlen \<bar>m\<bar> \<le> 53")
  case True
  then show ?thesis by (simp add: round53_exact b64_val_def)
next
  case False
  then obtain sh q' where res: "round53 m e = (sgn m * q', e + int sh)"
    and near: "\<bar>q' * 2 ^ sh - \<bar>m\<bar>\<bar> * 2 \<le> 2 ^ sh"
    by (rule round53_cases)
  have split: "(2::real) powi (e + int sh) = 2 powi e * 2 ^ sh"
    by (simp add: power_int_add)
  define d where "d = sgn m * (q' * 2 ^ sh - \<bar>m\<bar>)"
  have "d = sgn m * q' * 2 ^ sh - sgn m * \<bar>m\<bar>"
    by (simp add: d_def algebra_simps)
  then have int_eq: "d = sgn m * q' * 2 ^ sh - m"
    by (simp only: mult_sgn_abs)
  have "\<bar>d\<bar> = \<bar>sgn m\<bar> * \<bar>q' * 2 ^ sh - \<bar>m\<bar>\<bar>"
    by (simp only: d_def abs_mult)
  also have "\<dots> \<le> 1 * \<bar>q' * 2 ^ sh - \<bar>m\<bar>\<bar>"
    by (intro mult_right_mono) (simp_all add: abs_sgn_eq)
  finally have dle: "\<bar>d\<bar> * 2 \<le> 2 ^ sh" using near by simp
  have "b64_val (round53 m e) - of_int m * 2 powi e
        = of_int (sgn m * q' * 2 ^ sh - m) * 2 powi e"
    by (simp add: res b64_val_def split algebra_simps)
  then have "b64_val (round53 m e) - of_int m * 2 powi e = of_int d * 2 powi e"
    by (simp only: int_eq)
  then have "\<bar>b64_val (round53 m e) - of_int m * 2 powi e\<bar> * 2
        = of_int (\<bar>d\<bar> * 2) * 2 powi e"
    by (simp add: abs_mult power_int_abs)
  also have "\<dots> \<le> of_int (2 ^ sh) * 2 powi e"
    using dle by (intro mult_right_mono) (simp_all only: of_int_le_iff, simp_all)
  finally show ?thesis by (simp add: res split mult.commute)
qed


text \<open>A rounded result that passes \<open>normal_range\<close> is zero or of normal magnitude.\<close>

lemma normal_range_bounds:
  assumes "normal_range (round53 m e)" and "fst (round53 m e) \<noteq> 0"
  shows "2 powi (- 1022) \<le> \<bar>b64_val (round53 m e)\<bar> \<and> \<bar>b64_val (round53 m e)\<bar> < 2 powi 1024"
proof -
  obtain m' e' where r: "round53 m e = (m', e')" by (cases "round53 m e")
  have m0: "m' \<noteq> 0" and lo: "- 1022 \<le> e'" and hi: "e' \<le> 970"
    using assms by (simp_all add: r normal_range_def)
  have m53: "\<bar>m'\<bar> \<le> 2 ^ 53" using round53_mantissa [of m e] by (simp add: r)
  have v: "\<bar>b64_val (m', e')\<bar> = of_int \<bar>m'\<bar> * 2 powi e'"
    by (simp add: b64_val_def abs_mult power_int_abs)
  have "1 \<le> \<bar>m'\<bar>" using m0 by simp
  then have one: "(1::real) \<le> of_int \<bar>m'\<bar>" by (simp only: of_int_1_le_iff)
  have "(2::real) powi (- 1022) \<le> 2 powi e'"
    using lo by (intro power_int_increasing) simp_all
  also have "\<dots> = 1 * 2 powi e'" by (simp only: mult_1)
  also have "\<dots> \<le> of_int \<bar>m'\<bar> * 2 powi e'"
    using one by (intro mult_right_mono) simp_all
  finally have low: "2 powi (- 1022) \<le> \<bar>b64_val (m', e')\<bar>" by (simp only: v)
  have "(of_int \<bar>m'\<bar> :: real) \<le> of_int (2 ^ 53)" using m53 by (simp only: of_int_le_iff)
  then have "of_int \<bar>m'\<bar> * (2::real) powi e' \<le> of_int (2 ^ 53) * 2 powi e'"
    by (intro mult_right_mono) simp_all
  also have "\<dots> = 2 powi 53 * 2 powi e'" by simp
  also have "\<dots> = 2 powi (53 + e')" by (rule power_int_add [symmetric]) simp
  also have "\<dots> \<le> 2 powi 1023" using hi by (intro power_int_increasing) simp_all
  also have "\<dots> < (2::real) powi 1024" by (intro power_int_strict_increasing) simp_all
  finally have "\<bar>b64_val (m', e')\<bar> < 2 powi 1024" by (simp only: v)
  with low show ?thesis by (simp only: r simp_thms)
qed

lemma b64_val_align:
  "e \<le> snd x \<Longrightarrow> of_int (fst x * 2 ^ nat (snd x - e)) * 2 powi e = b64_val x"
proof -
  assume "e \<le> snd x"
  then have "snd x = e + int (nat (snd x - e))" by simp
  then have "(2::real) powi (snd x) = 2 powi e * 2 ^ nat (snd x - e)"
    by (metis power_int_add power_int_of_nat zero_neq_numeral)
  then show ?thesis by (simp add: b64_val_def)
qed

lemma b64_sum_val:
  "of_int (fst x * 2 ^ nat (snd x - min (snd x) (snd y))
           + fst y * 2 ^ nat (snd y - min (snd x) (snd y))) * 2 powi (min (snd x) (snd y))
   = b64_val x + b64_val y"
  using b64_val_align [of "min (snd x) (snd y)" x] b64_val_align [of "min (snd x) (snd y)" y]
  by (simp add: algebra_simps)

lemma b64_add_error:
  "\<bar>b64_val (b64_add x y) - (b64_val x + b64_val y)\<bar> * 2 \<le> 2 powi (snd (b64_add x y))"
  using round53_error [of "fst x * 2 ^ nat (snd x - min (snd x) (snd y))
           + fst y * 2 ^ nat (snd y - min (snd x) (snd y))" "min (snd x) (snd y)"]
  by (simp only: b64_add_def Let_def b64_sum_val)

lemma b64_mul_error:
  "\<bar>b64_val (b64_mul x y) - b64_val x * b64_val y\<bar> * 2 \<le> 2 powi (snd (b64_mul x y))"
proof -
  have "of_int (fst x * fst y) * 2 powi (snd x + snd y) = b64_val x * b64_val y"
    by (simp add: b64_val_def power_int_add)
  then show ?thesis
    using round53_error [of "fst x * fst y" "snd x + snd y"] by (simp only: b64_mul_def)
qed

lemma b64_neg_val: "b64_val (b64_neg x) = - b64_val x"
  by (simp add: b64_val_def b64_neg_def)

lemma b64_less_iff: "b64_less x y \<longleftrightarrow> b64_val x < b64_val y"
proof -
  let ?e = "min (snd x) (snd y)"
  let ?a = "fst x * 2 ^ nat (snd x - ?e)" and ?b = "fst y * 2 ^ nat (snd y - ?e)"
  have "b64_val x < b64_val y \<longleftrightarrow> of_int ?a * (2::real) powi ?e < of_int ?b * 2 powi ?e"
    by (simp only: b64_val_align [of ?e x] b64_val_align [of ?e y] min.cobounded1 min.cobounded2)
  also have "\<dots> \<longleftrightarrow> (of_int ?a :: real) < of_int ?b"
    by (simp only: mult_less_cancel_right_pos zero_less_power_int zero_less_numeral)
  also have "\<dots> \<longleftrightarrow> ?a < ?b" by (simp only: of_int_less_iff)
  finally show ?thesis by (simp only: b64_less_def Let_def)
qed

text \<open>The two deltas are the 53-bit values nearest to \<open>1/30\<close> and \<open>1/60\<close>.\<close>

lemma b64_30th_nearest:
  "2 ^ 52 \<le> fst b64_30th \<and> fst b64_30th < 2 ^ 53
   \<and> \<bar>b64_val b64_30th - 1/30\<bar> * 2 \<le> 2 powi (snd b64_30th)"
  by (simp add: b64_30th_def b64_val_def power_int_minus field_simps)

lemma b64_60th_nearest:
  "2 ^ 52 \<le> fst b64_60th \<and> fst b64_60th < 2 ^ 53
   \<and> \<bar>b64_val b64_60th - 1/60\<bar> * 2 \<le> 2 powi (snd b64_60th)"
  by (simp add: b64_60th_def b64_val_def power_int_minus field_simps)

text \<open>
  The scroll scenario in binary64: after \<open>240\<close> frames the offset is
  \<open>-5629499534213116 * 2^-47\<close>, just above \<open>-40\<close>, with no reset so far; frame \<open>241\<close> is
  the first to reset.
\<close>

lemma Hills_b64_240:
  "fold Hills_useFrame_p0_b64 (replicate 240 b64_30th) (0, (0, 0), True)
     = (0, (- 5629499534213116, - 47), True)"
  by code_simp

lemma Hills_b64_241:
  "fold Hills_useFrame_p0_b64 (replicate 241 b64_30th) (0, (0, 0), True) = (1, (0, 0), True)"
proof -
  have r: "replicate 241 b64_30th = replicate 240 b64_30th @ [b64_30th]"
    using replicate_add [of 240 1 b64_30th] by simp
  have "Hills_useFrame_p0_b64 b64_30th (0, (- 5629499534213116, - 47), True) = (1, (0, 0), True)"
    by code_simp
  then show ?thesis by (simp only: r fold_append comp_def Hills_b64_240 fold.simps id_def)
qed

text \<open>
  The jump scenario in binary64. Frame \<open>32\<close> computes the velocity \<open>0\<close> and leaves the
  position where it was after frame \<open>31\<close>. After frame \<open>63\<close> the position is \<open>20 * 2^-55\<close>,
  still above the ground; frame \<open>64\<close> lands. The state is airborne after each of the first
  \<open>63\<close> frames, and the position is never negative.
\<close>

lemma Kangaroo_b64_31:
  "fold Kangaroo_useFrame_p0_b64 (replicate 31 b64_60th) (True, (8, 0), (0, 0), True)
     = (True, (4503599627370496, - 54), (4653719614949514, - 51), True)"
  by code_simp

lemma Kangaroo_b64_32:
  "fold Kangaroo_useFrame_p0_b64 (replicate 32 b64_60th) (True, (8, 0), (0, 0), True)
     = (True, (0, - 55), (4653719614949514, - 51), True)"
proof -
  have r: "replicate 32 b64_60th = replicate 31 b64_60th @ [b64_60th]"
    using replicate_add [of 31 1 b64_60th] by simp
  have "Kangaroo_useFrame_p0_b64 b64_60th
          (True, (4503599627370496, - 54), (4653719614949514, - 51), True)
        = (True, (0, - 55), (4653719614949514, - 51), True)"
    by code_simp
  then show ?thesis by (simp only: r fold_append comp_def Kangaroo_b64_31 fold.simps id_def)
qed

lemma Kangaroo_b64_63:
  "fold Kangaroo_useFrame_p0_b64 (replicate 63 b64_60th) (True, (8, 0), (0, 0), True)
     = (True, (- 8725724278030336, - 50), (20, - 55), True)"
proof -
  have r: "replicate 63 b64_60th = replicate 32 b64_60th @ replicate 31 b64_60th"
    using replicate_add [of 32 31 b64_60th] by simp
  have "fold Kangaroo_useFrame_p0_b64 (replicate 31 b64_60th)
          (True, (0, - 55), (4653719614949514, - 51), True)
        = (True, (- 8725724278030336, - 50), (20, - 55), True)"
    by code_simp
  then show ?thesis by (simp only: r fold_append comp_def Kangaroo_b64_32)
qed

lemma Kangaroo_b64_64:
  "fold Kangaroo_useFrame_p0_b64 (replicate 64 b64_60th) (True, (8, 0), (0, 0), True)
     = (False, (0, 0), (0, 0), True)"
proof -
  have r: "replicate 64 b64_60th = replicate 63 b64_60th @ [b64_60th]"
    using replicate_add [of 63 1 b64_60th] by simp
  have "Kangaroo_useFrame_p0_b64 b64_60th (True, (- 8725724278030336, - 50), (20, - 55), True)
        = (False, (0, 0), (0, 0), True)"
    by code_simp
  then show ?thesis by (simp only: r fold_append comp_def Kangaroo_b64_63 fold.simps id_def)
qed

lemma Kangaroo_b64_grounded:
  "fold Kangaroo_useFrame_p0_b64 ds (False, v, p, ok) = (False, v, p, ok)"
  by (induction ds) simp_all

lemma Kangaroo_b64_position:
  "0 \<le> b64_val p \<Longrightarrow>
   Kangaroo_useFrame_p0_b64 d (j, v, p, ok) = (j', v', p', ok') \<Longrightarrow> 0 \<le> b64_val p'"
  by (auto simp: Let_def b64_le_def b64_less_iff b64_val_def split: if_splits)

lemma Kangaroo_b64_never_negative:
  "0 \<le> b64_val p \<Longrightarrow>
   fold Kangaroo_useFrame_p0_b64 ds (j, v, p, ok) = (j', v', p', ok') \<Longrightarrow> 0 \<le> b64_val p'"
proof (induction ds arbitrary: j v p ok)
  case Nil
  then show ?case by simp
next
  case (Cons d ds)
  obtain j1 v1 p1 ok1 where s: "Kangaroo_useFrame_p0_b64 d (j, v, p, ok) = (j1, v1, p1, ok1)"
    by (metis prod_cases4)
  have "0 \<le> b64_val p1" using Kangaroo_b64_position [OF Cons.prems(1) s] .
  then show ?case
    using Cons.IH [of p1 j1 v1 ok1] Cons.prems(2)
    by (simp add: s del: Kangaroo_useFrame_p0_b64.simps)
qed

lemma Kangaroo_b64_airborne_before_64:
  assumes "n \<le> 63"
  shows "fst (fold Kangaroo_useFrame_p0_b64 (replicate n b64_60th) (True, (8, 0), (0, 0), True))"
proof (rule ccontr)
  assume a: "\<not> ?thesis"
  obtain j v p ok where s:
    "fold Kangaroo_useFrame_p0_b64 (replicate n b64_60th) (True, (8, 0), (0, 0), True) = (j, v, p, ok)"
    by (metis prod_cases4)
  with a have j: "\<not> j" by simp
  have "replicate 63 b64_60th = replicate n b64_60th @ replicate (63 - n) b64_60th"
    using assms replicate_add [of n "63 - n" b64_60th] by simp
  then have "fold Kangaroo_useFrame_p0_b64 (replicate 63 b64_60th) (True, (8, 0), (0, 0), True)
      = fold Kangaroo_useFrame_p0_b64 (replicate (63 - n) b64_60th) (j, v, p, ok)"
    by (simp only: fold_append comp_def s)
  then show False using j by (simp only: Kangaroo_b64_63 Kangaroo_b64_grounded) simp
qed


lemma Kangaroo_b64_after_64:
  "fold Kangaroo_useFrame_p0_b64 (replicate (64 + m) b64_60th) (True, (8, 0), (0, 0), True)
     = (False, (0, 0), (0, 0), True)"
  by (simp only: replicate_add fold_append comp_def Kangaroo_b64_64 Kangaroo_b64_grounded)

text \<open>
  Rounding can absorb a small velocity change: with \<open>delta = 2^-60\<close> the sum
  \<open>8 + (-15 * delta)\<close> rounds back to \<open>8\<close>, so a frame right after the trigger leaves the
  velocity at \<open>8\<close> while the position rises to \<open>2^-57\<close>.
\<close>

lemma Kangaroo_b64_velocity_absorbed:
  "Kangaroo_useFrame_p0_b64 (1, - 60) (True, (8, 0), (0, 0), True)
     = (True, (9007199254740992, - 50), (4503599627370496, - 109), True)
   \<and> b64_val (9007199254740992, - 50) = b64_val (8, 0)"
proof -
  have "Kangaroo_useFrame_p0_b64 (1, - 60) (True, (8, 0), (0, 0), True)
     = (True, (9007199254740992, - 50), (4503599627370496, - 109), True)"
    by code_simp
  moreover have "b64_val (9007199254740992, - 50) = b64_val (8, 0)"
    by (simp add: b64_val_def power_int_minus)
  ultimately show ?thesis by (simp only: simp_thms)
qed

section \<open>Invariants between renders\<close>

text \<open>
  Every call preserves \<open>render_inv\<close>. A frame callback that still reads \<open>isJumping = true\<close>
  after a landing integrates from rest at ground level, arrives at
  \<open>groundLevel + gravity * delta^2\<close>, which is not above the ground, and lands again.
\<close>

lemma render_inv_onFrame:
  assumes "render_inv groundLevel jumpForce c"
  shows "render_inv groundLevel jumpForce (Kangaroo_onFrame t d c)"
proof (cases "kangarooRef (current c)")
  case None
  then show ?thesis using assms by (simp add: Kangaroo_onFrame_def)
next
  case (Some g)
  show ?thesis
  proof (cases "frame_isJumping c")
    case False
    then show ?thesis
      using assms Some
      by (cases "isJumping (current c)") (simp_all add: Kangaroo_onFrame_def render_inv_def)
  next
    case True
    show ?thesis
    proof (cases "isJumping (current c)")
      case j: True
      then show ?thesis
        using Some True by (simp add: Kangaroo_onFrame_def Let_def render_inv_def)
    next
      case j: False
      then have p: "positionY (current c) = groundLevel" and v: "velocityY (current c) = 0"
        using assms by (simp_all add: render_inv_def)
      have "gravity * d * d \<le> 0"
        using mult_nonpos_nonneg [of gravity "d * d"] by (simp add: gravity_def mult.assoc)
      then have "positionY (current c) + (velocityY (current c) + gravity * d) * d \<le> groundLevel"
        by (simp add: p v)
      then show ?thesis
        using Some True by (simp add: Kangaroo_onFrame_def Let_def render_inv_def)
    qed
  qed
qed

lemma render_inv_onFrame_p0:
  assumes "render_inv groundLevel_p0 jumpForce_p0 c"
  shows "render_inv groundLevel_p0 jumpForce_p0 (Kangaroo_onFrame_p0 t d c)"
proof (cases "kangarooRef (current c)")
  case None
  then show ?thesis using assms by (simp add: Kangaroo_onFrame_p0_def)
next
  case (Some g)
  show ?thesis
  proof (cases "frame_isJumping c")
    case False
    then show ?thesis
      using assms Some
      by (cases "isJumping (current c)") (simp_all add: Kangaroo_onFrame_p0_def render_inv_def)
  next
    case True
    show ?thesis
    proof (cases "isJumping (current c)")
      case j: True
      then show ?thesis
        using Some True by (simp add: Kangaroo_onFrame_p0_def Let_def render_inv_def)
    next
      case j: False
      then have p: "positionY (current c) = groundLevel_p0" and v: "velocityY (current c) = 0"
        using assms by (simp_all add: render_inv_def)
      have "gravity_p0 * d * d \<le> 0"
        using mult_nonpos_nonneg [of gravity_p0 "d * d"] by (simp add: gravity_p0_def mult.assoc)
      then have "positionY (current c) + (velocityY (current c) + gravity_p0 * d) * d
                   \<le> groundLevel_p0"
        by (simp add: p v)
      then show ?thesis
        using Some True by (simp add: Kangaroo_onFrame_p0_def Let_def render_inv_def)
    qed
  qed
qed

lemma render_inv_onInterval:
  assumes "render_inv groundLevel jumpForce c"
  shows "render_inv groundLevel jumpForce (Kangaroo_onInterval c)"
  using assms
  by (cases "isJumping (current c)"; cases "interval_isJumping c")
     (auto simp add: Kangaroo_onInterval_def render_inv_def)

lemma render_inv_onInterval_p0:
  assumes "render_inv groundLevel_p0 jumpForce_p0 c"
  shows "render_inv groundLevel_p0 jumpForce_p0 (Kangaroo_onInterval_p0 c)"
  using assms
  by (cases "isJumping (current c)"; cases "interval_isJumping c")
     (auto simp add: Kangaroo_onInterval_p0_def render_inv_def)

lemma render_inv_render:
  "render_inv gl jf c \<Longrightarrow> render_inv gl jf (Kangaroo_render c)"
  by (simp add: Kangaroo_render_def render_inv_def)

lemma render_inv_useEffect:
  "render_inv gl jf c \<Longrightarrow> render_inv gl jf (Kangaroo_useEffect c)"
  by (simp add: Kangaroo_useEffect_def render_inv_def)

lemma render_inv_calls:
  "render_inv groundLevel jumpForce c \<Longrightarrow> render_inv groundLevel jumpForce (Kangaroo_calls cs c)"
  unfolding Kangaroo_calls_def
proof (induction cs arbitrary: c)
  case Nil
  then show ?case by simp
next
  case (Cons e cs)
  have "render_inv groundLevel jumpForce (Kangaroo_call e c)"
    using Cons.prems
    by (cases e)
       (simp_all add: render_inv_onFrame render_inv_onInterval render_inv_render
          render_inv_useEffect)
  then show ?case using Cons.IH by simp
qed

lemma render_inv_calls_p0:
  "render_inv groundLevel_p0 jumpForce_p0 c \<Longrightarrow>
   render_inv groundLevel_p0 jumpForce_p0 (Kangaroo_calls_p0 cs c)"
  unfolding Kangaroo_calls_p0_def
proof (induction cs arbitrary: c)
  case Nil
  then show ?case by simp
next
  case (Cons e cs)
  have "render_inv groundLevel_p0 jumpForce_p0 (Kangaroo_call_p0 e c)"
    using Cons.prems
    by (cases e)
       (simp_all add: render_inv_onFrame_p0 render_inv_onInterval_p0 render_inv_render
          render_inv_useEffect)
  then show ?case using Cons.IH by simp
qed

lemma render_inv_mount:
  "render_inv groundLevel jumpForce Kangaroo_mount"
  "render_inv groundLevel_p0 jumpForce_p0 Kangaroo_mount_p0"
  by (simp_all add: render_inv_def Kangaroo_mount_def Kangaroo_mount_p0_def Kangaroo_init_def
      Kangaroo_init_p0_def groundLevel_def groundLevel_p0_def)

lemma render_inv_cases:
  assumes "render_inv gl jf c"
  shows "gl \<le> positionY (current c)
     \<and> (velocityY (current c) \<noteq> 0 \<longrightarrow> isJumping (current c))
     \<and> (\<not> isJumping (current c) \<longrightarrow> positionY (current c) = gl \<and> velocityY (current c) = 0)
     \<and> (velocityY (current c) \<noteq> 0 \<longrightarrow>
          frame_isJumping c
          \<or> isJumping (current c) \<and> positionY (current c) = gl \<and> velocityY (current c) = jf)
     \<and> (\<not> frame_isJumping c \<longrightarrow>
          positionY (current c) = gl
          \<and> (velocityY (current c) = 0 \<or> isJumping (current c) \<and> velocityY (current c) = jf))"
  using assms by (cases "isJumping (current c)") (auto simp add: render_inv_def)

text \<open>A callback followed by the render it requested and by the effect of that render.\<close>

lemma Kangaroo_onFrame_committed:
  assumes "frame_isJumping c = isJumping (current c)"
  shows "Kangaroo_useEffect (Kangaroo_render (Kangaroo_onFrame t d c))
         = \<lparr>current = Kangaroo_useFrame t d (current c),
            frame_isJumping = isJumping (Kangaroo_useFrame t d (current c)),
            interval_isJumping = isJumping (Kangaroo_useFrame t d (current c))\<rparr>"
  using assms
  by (cases "kangarooRef (current c)")
     (simp_all add: Kangaroo_onFrame_def Kangaroo_useFrame_def Kangaroo_render_def
        Kangaroo_useEffect_def Let_def)

lemma Kangaroo_onFrame_p0_committed:
  assumes "frame_isJumping c = isJumping (current c)"
  shows "Kangaroo_useEffect (Kangaroo_render (Kangaroo_onFrame_p0 t d c))
         = \<lparr>current = Kangaroo_useFrame_p0 t d (current c),
            frame_isJumping = isJumping (Kangaroo_useFrame_p0 t d (current c)),
            interval_isJumping = isJumping (Kangaroo_useFrame_p0 t d (current c))\<rparr>"
  using assms
  by (cases "kangarooRef (current c)")
     (simp_all add: Kangaroo_onFrame_p0_def Kangaroo_useFrame_p0_def Kangaroo_render_def
        Kangaroo_useEffect_def Let_def)

lemma Kangaroo_onInterval_committed:
  assumes "interval_isJumping c = isJumping (current c)"
  shows "Kangaroo_useEffect (Kangaroo_render (Kangaroo_onInterval c))
         = \<lparr>current = jumpInterval (current c),
            frame_isJumping = isJumping (jumpInterval (current c)),
            interval_isJumping = isJumping (jumpInterval (current c))\<rparr>"
  using assms
  by (simp add: Kangaroo_onInterval_def jumpInterval_def Kangaroo_render_def
        Kangaroo_useEffect_def)

lemma Kangaroo_onInterval_p0_committed:
  assumes "interval_isJumping c = isJumping (current c)"
  shows "Kangaroo_useEffect (Kangaroo_render (Kangaroo_onInterval_p0 c))
         = \<lparr>current = jumpInterval_p0 (current c),
            frame_isJumping = isJumping (jumpInterval_p0 (current c)),
            interval_isJumping = isJumping (jumpInterval_p0 (current c))\<rparr>"
  using assms
  by (simp add: Kangaroo_onInterval_p0_def jumpInterval_p0_def Kangaroo_render_def
        Kangaroo_useEffect_def)

text \<open>
  Hence a run in which every callback is followed by its render and effect is a run of
  the section \<open>Kangaroo: the jump simulator\<close>.
\<close>

lemma Kangaroo_calls_committed:
  "Kangaroo_calls (committed es)
     \<lparr>current = s, frame_isJumping = isJumping s, interval_isJumping = isJumping s\<rparr>
   = \<lparr>current = Kangaroo_run es s, frame_isJumping = isJumping (Kangaroo_run es s),
      interval_isJumping = isJumping (Kangaroo_run es s)\<rparr>"
proof (induction es arbitrary: s rule: committed.induct)
  case 1
  show ?case by (simp add: Kangaroo_calls_def Kangaroo_run_def)
next
  case (2 t d es)
  show ?case
    using "2.IH" [of "Kangaroo_useFrame t d s"]
    by (simp add: Kangaroo_calls_def Kangaroo_run_def Kangaroo_onFrame_committed)
next
  case (3 es)
  show ?case
    using "3.IH" [of "jumpInterval s"]
    by (simp add: Kangaroo_calls_def Kangaroo_run_def Kangaroo_onInterval_committed)
qed

lemma Kangaroo_calls_p0_committed:
  "Kangaroo_calls_p0 (committed es)
     \<lparr>current = s, frame_isJumping = isJumping s, interval_isJumping = isJumping s\<rparr>
   = \<lparr>current = Kangaroo_run_p0 es s, frame_isJumping = isJumping (Kangaroo_run_p0 es s),
      interval_isJumping = isJumping (Kangaroo_run_p0 es s)\<rparr>"
proof (induction es arbitrary: s rule: committed.induct)
  case 1
  show ?case by (simp add: Kangaroo_calls_p0_def Kangaroo_run_p0_def)
next
  case (2 t d es)
  show ?case
    using "2.IH" [of "Kangaroo_useFrame_p0 t d s"]
    by (simp add: Kangaroo_calls_p0_def Kangaroo_run_p0_def Kangaroo_onFrame_p0_committed)
next
  case (3 es)
  show ?case
    using "3.IH" [of "jumpInterval_p0 s"]
    by (simp add: Kangaroo_calls_p0_def Kangaroo_run_p0_def Kangaroo_onInterval_p0_committed)
qed

section \<open>Rounding is monotone\<close>

text \<open>
  \<open>round53\<close> returns a multiple of \<open>2^sh\<close> that is nearest to the exact value, \<open>sh\<close> being
  the number of bits dropped. A value with at most \<open>53\<close> significant bits that bounds the
  exact value is such a multiple, or it is smaller in magnitude than the power of two
  below the exact value; either way it bounds the rounded value too.
\<close>

lemma round53_large:
  assumes "\<not> bitlen \<bar>m\<bar> \<le> 53"
  obtains sh R where "round53 m e = (R, e + int sh)" and "0 < sh"
    and "2 ^ (52 + sh) \<le> \<bar>m\<bar>" and "\<bar>R * 2 ^ sh - m\<bar> * 2 \<le> 2 ^ sh"
proof -
  define sh where "sh = nat (bitlen \<bar>m\<bar> - 53)"
  have sh: "0 < sh" using assms by (simp add: sh_def)
  have mpos: "0 < \<bar>m\<bar>" using assms by (cases "m = 0") simp_all
  have "nat (bitlen \<bar>m\<bar> - 1) = 52 + sh" using assms by (simp add: sh_def)
  then have low: "2 ^ (52 + sh) \<le> \<bar>m\<bar>"
    using bitlen_bounds [OF mpos] by simp
  obtain sh' q' where res: "round53 m e = (sgn m * q', e + int sh')"
    and near: "\<bar>q' * 2 ^ sh' - \<bar>m\<bar>\<bar> * 2 \<le> 2 ^ sh'"
    using assms by (rule round53_cases)
  have "snd (round53 m e) = e + int sh"
    using assms by (simp add: round53_def Let_def sh_def)
  then have eq: "sh' = sh" using res by simp
  define d where "d = sgn m * (q' * 2 ^ sh - \<bar>m\<bar>)"
  have "d = sgn m * q' * 2 ^ sh - sgn m * \<bar>m\<bar>"
    by (simp add: d_def algebra_simps)
  then have int_eq: "d = sgn m * q' * 2 ^ sh - m"
    by (simp only: mult_sgn_abs)
  have "\<bar>d\<bar> = \<bar>sgn m\<bar> * \<bar>q' * 2 ^ sh - \<bar>m\<bar>\<bar>"
    by (simp only: d_def abs_mult)
  also have "\<dots> \<le> 1 * \<bar>q' * 2 ^ sh - \<bar>m\<bar>\<bar>"
    by (intro mult_right_mono) (simp_all add: abs_sgn_eq)
  finally have "\<bar>d\<bar> * 2 \<le> 2 ^ sh" using near eq by simp
  then have "\<bar>sgn m * q' * 2 ^ sh - m\<bar> * 2 \<le> 2 ^ sh" by (simp only: int_eq)
  then show thesis using that [of "sgn m * q'" sh] res eq sh low by simp
qed

lemma round53_grid:
  fixes R W m :: int
  assumes "\<bar>R * 2 ^ sh - m\<bar> * 2 \<le> 2 ^ sh" and "m \<le> W * 2 ^ sh"
  shows "R \<le> W"
proof -
  define T :: int where "T = R * 2 ^ sh"
  define U :: int where "U = 2 ^ sh"
  have "0 < U" by (simp add: U_def)
  moreover have "\<bar>T - m\<bar> * 2 \<le> U" using assms(1) by (simp only: T_def U_def)
  ultimately have "T - m < U" by arith
  then have "R * 2 ^ sh - m < 2 ^ sh" by (simp only: T_def U_def)
  then have "R * 2 ^ sh < (W + 1) * 2 ^ sh" using assms(2) by (simp add: algebra_simps)
  then have "R < W + 1" by (rule mult_right_less_imp_less) simp
  then show ?thesis by simp
qed

lemma round53_le_int:
  assumes le: "m \<le> mv * 2 ^ kv" and mv: "\<bar>mv\<bar> \<le> 2 ^ 53"
  obtains R sh where "round53 m e = (R, e + int sh)" and "R * 2 ^ sh \<le> mv * 2 ^ kv"
proof (cases "bitlen \<bar>m\<bar> \<le> 53")
  case True
  then show thesis using that [of m 0] le by (simp add: round53_exact)
next
  case False
  then obtain sh R where res: "round53 m e = (R, e + int sh)" and sh: "0 < sh"
    and low: "2 ^ (52 + sh) \<le> \<bar>m\<bar>" and near: "\<bar>R * 2 ^ sh - m\<bar> * 2 \<le> 2 ^ sh"
    by (rule round53_large)
  have "R * 2 ^ sh \<le> mv * 2 ^ kv"
  proof (cases "sh \<le> kv")
    case True
    then have "kv = (kv - sh) + sh" by simp
    then have eq: "mv * 2 ^ kv = (mv * 2 ^ (kv - sh)) * 2 ^ sh"
      by (metis mult.assoc power_add)
    have "m \<le> (mv * 2 ^ (kv - sh)) * 2 ^ sh" using le by (simp only: eq)
    then have "R \<le> mv * 2 ^ (kv - sh)" by (rule round53_grid [OF near])
    then have "R * 2 ^ sh \<le> (mv * 2 ^ (kv - sh)) * 2 ^ sh"
      by (intro mult_right_mono) simp_all
    then show ?thesis by (simp only: eq)
  next
    case False
    then have "53 + kv \<le> 52 + sh" by simp
    have "\<bar>mv * 2 ^ kv\<bar> = \<bar>mv\<bar> * 2 ^ kv" by (simp add: abs_mult)
    also have "\<dots> \<le> 2 ^ 53 * 2 ^ kv" using mv by (intro mult_right_mono) simp_all
    also have "\<dots> = (2::int) ^ (53 + kv)" by (simp only: power_add)
    also have "\<dots> \<le> 2 ^ (52 + sh)"
      using \<open>53 + kv \<le> 52 + sh\<close> by (intro power_increasing) simp_all
    finally have small: "\<bar>mv * 2 ^ kv\<bar> \<le> 2 ^ (52 + sh)" .
    have p: "(2::int) ^ (52 + sh) = 2 ^ 52 * 2 ^ sh" by (simp only: power_add)
    show ?thesis
    proof (cases "0 \<le> m")
      case True
      then have "mv * 2 ^ kv = 2 ^ (52 + sh)" using low le small by linarith
      then have eq: "mv * 2 ^ kv = 2 ^ 52 * 2 ^ sh" by (simp only: p)
      have "m \<le> 2 ^ 52 * 2 ^ sh" using le by (simp only: eq)
      then have "R \<le> 2 ^ 52" by (rule round53_grid [OF near])
      then have "R * 2 ^ sh \<le> 2 ^ 52 * 2 ^ sh"
        by (intro mult_right_mono) simp_all
      then show ?thesis by (simp only: eq)
    next
      case False
      then have "m \<le> - (2 ^ (52 + sh))" using low by linarith
      then have "m \<le> (- (2 ^ 52)) * 2 ^ sh" by (simp add: p)
      then have "R \<le> - (2 ^ 52)" by (rule round53_grid [OF near])
      then have "R * 2 ^ sh \<le> (- (2 ^ 52)) * 2 ^ sh"
        by (intro mult_right_mono) simp_all
      also have "\<dots> = - (2 ^ (52 + sh))" by (simp add: p)
      also have "\<dots> \<le> mv * 2 ^ kv" using small by linarith
      finally show ?thesis .
    qed
  qed
  then show thesis using that [OF res] by blast
qed

lemma round53_val_le:
  assumes "m \<le> mv * 2 ^ kv" and "\<bar>mv\<bar> \<le> 2 ^ 53"
  shows "b64_val (round53 m e) \<le> of_int (mv * 2 ^ kv) * 2 powi e"
proof -
  obtain R sh where res: "round53 m e = (R, e + int sh)" and le: "R * 2 ^ sh \<le> mv * 2 ^ kv"
    using assms by (rule round53_le_int)
  have split: "(2::real) powi (e + int sh) = 2 powi e * 2 ^ sh"
    by (simp add: power_int_add)
  have "b64_val (round53 m e) = of_int (R * 2 ^ sh) * 2 powi e"
    by (simp add: res b64_val_def split)
  also have "\<dots> \<le> of_int (mv * 2 ^ kv) * 2 powi e"
    using le by (intro mult_right_mono) (simp_all only: of_int_le_iff, simp_all)
  finally show ?thesis .
qed

lemma round53_neg: "round53 (- m) e = b64_neg (round53 m e)"
  by (simp add: round53_def b64_neg_def Let_def)

lemma round53_val_ge:
  assumes "mv * 2 ^ kv \<le> m" and "\<bar>mv\<bar> \<le> 2 ^ 53"
  shows "of_int (mv * 2 ^ kv) * 2 powi e \<le> b64_val (round53 m e)"
proof -
  have "b64_val (round53 (- m) e) \<le> of_int ((- mv) * 2 ^ kv) * 2 powi e"
    using assms by (intro round53_val_le) simp_all
  then show ?thesis by (simp add: round53_neg b64_neg_val)
qed

lemma b64_val_sign:
  "0 \<le> b64_val x \<longleftrightarrow> 0 \<le> fst x" "b64_val x \<le> 0 \<longleftrightarrow> fst x \<le> 0"
  "0 < b64_val x \<longleftrightarrow> 0 < fst x" "b64_val x < 0 \<longleftrightarrow> fst x < 0"
proof -
  have pos: "(0::real) < 2 powi snd x" by simp
  show "0 \<le> b64_val x \<longleftrightarrow> 0 \<le> fst x"
    using pos by (simp add: b64_val_def zero_le_mult_iff not_le [symmetric] del: zero_less_power_int)
  show "b64_val x \<le> 0 \<longleftrightarrow> fst x \<le> 0"
    using pos by (simp add: b64_val_def mult_le_0_iff not_le [symmetric] del: zero_less_power_int)
  show "0 < b64_val x \<longleftrightarrow> 0 < fst x"
    using pos by (simp add: b64_val_def zero_less_mult_iff not_less [symmetric] less_imp_le
        del: zero_less_power_int)
  show "b64_val x < 0 \<longleftrightarrow> fst x < 0"
    using pos by (simp add: b64_val_def mult_less_0_iff not_less [symmetric] less_imp_le
        del: zero_less_power_int)
qed

lemma b64_le_iff: "b64_le x y \<longleftrightarrow> b64_val x \<le> b64_val y"
  by (simp add: b64_le_def b64_less_iff not_less)

lemma b64_add_le:
  assumes "bits53 x" and "b64_val y \<le> 0"
  shows "b64_val (b64_add x y) \<le> b64_val x"
proof -
  let ?e = "min (snd x) (snd y)"
  have "fst y * 2 ^ nat (snd y - ?e) \<le> 0"
    using assms(2) by (simp add: b64_val_sign mult_le_0_iff)
  then have "fst x * 2 ^ nat (snd x - ?e) + fst y * 2 ^ nat (snd y - ?e)
             \<le> fst x * 2 ^ nat (snd x - ?e)"
    by simp
  then have "b64_val (b64_add x y) \<le> of_int (fst x * 2 ^ nat (snd x - ?e)) * 2 powi ?e"
    using assms(1) unfolding b64_add_def Let_def bits53_def by (rule round53_val_le)
  then show ?thesis by (simp only: b64_val_align [of ?e x] min.cobounded1)
qed

lemma b64_add_ge:
  assumes "bits53 x" and "0 \<le> b64_val y"
  shows "b64_val x \<le> b64_val (b64_add x y)"
proof -
  let ?e = "min (snd x) (snd y)"
  have "0 \<le> fst y * 2 ^ nat (snd y - ?e)"
    using assms(2) by (simp add: b64_val_sign)
  then have "fst x * 2 ^ nat (snd x - ?e)
             \<le> fst x * 2 ^ nat (snd x - ?e) + fst y * 2 ^ nat (snd y - ?e)"
    by simp
  then have "of_int (fst x * 2 ^ nat (snd x - ?e)) * 2 powi ?e \<le> b64_val (b64_add x y)"
    using assms(1) unfolding b64_add_def Let_def bits53_def by (rule round53_val_ge)
  then show ?thesis by (simp only: b64_val_align [of ?e x] min.cobounded1)
qed

lemma b64_add_bits53: "bits53 (b64_add x y)"
  unfolding b64_add_def Let_def bits53_def by (rule round53_mantissa)

lemma b64_mul_nonneg:
  assumes "0 \<le> fst x * fst y"
  shows "0 \<le> b64_val (b64_mul x y)"
  using round53_val_ge [of 0 0 "fst x * fst y" "snd x + snd y"] assms
  by (simp add: b64_mul_def)

lemma b64_mul_nonpos:
  assumes "fst x * fst y \<le> 0"
  shows "b64_val (b64_mul x y) \<le> 0"
  using round53_val_le [of "fst x * fst y" 0 0 "snd x + snd y"] assms
  by (simp add: b64_mul_def)

text \<open>One integration step, for a gravity \<open>G\<close>.\<close>

lemma b64_euler_step:
  assumes G: "fst G < 0" and d: "0 < fst d" and v: "bits53 v" and p: "bits53 p"
    and v1: "v1 = b64_add v (b64_mul G d)" and p1: "p1 = b64_add p (b64_mul v1 d)"
  shows "b64_val v1 \<le> b64_val v"
    and "0 \<le> b64_val v1 \<Longrightarrow> b64_val p \<le> b64_val p1"
    and "b64_val v1 \<le> 0 \<Longrightarrow> b64_val p1 \<le> b64_val p"
    and "bits53 v1" and "bits53 p1"
proof -
  have "fst G * fst d \<le> 0" using G d by (simp add: mult_le_0_iff)
  then have "b64_val (b64_mul G d) \<le> 0" by (rule b64_mul_nonpos)
  then show "b64_val v1 \<le> b64_val v" unfolding v1 using v by (intro b64_add_le)
  show "b64_val p \<le> b64_val p1" if "0 \<le> b64_val v1"
  proof -
    have "0 \<le> fst v1 * fst d" using that d by (simp add: b64_val_sign)
    then have "0 \<le> b64_val (b64_mul v1 d)" by (rule b64_mul_nonneg)
    then show ?thesis unfolding p1 using p by (intro b64_add_ge)
  qed
  show "b64_val p1 \<le> b64_val p" if "b64_val v1 \<le> 0"
  proof -
    have "fst v1 * fst d \<le> 0" using that d by (simp add: b64_val_sign mult_le_0_iff)
    then have "b64_val (b64_mul v1 d) \<le> 0" by (rule b64_mul_nonpos)
    then show ?thesis unfolding p1 using p by (intro b64_add_le)
  qed
  show "bits53 v1" "bits53 p1" by (simp_all add: v1 p1 b64_add_bits53)
qed

section \<open>The shape of a jump\<close>

text \<open>
  A jump over any state type: \<open>J\<close> says that the state is airborne, \<open>V\<close> and \<open>P\<close> are its
  velocity and position, and \<open>I\<close> is preserved by the airborne frames. If every airborne
  frame either lands at \<open>gl\<close> with velocity \<open>0\<close> or stays above \<open>gl\<close> with a velocity that
  is not larger and a position that moves with the sign of the updated velocity, the
  run has the shape below.
\<close>

lemma episode_weak:
  fixes f :: "'e \<Rightarrow> 's \<Rightarrow> 's" and J I :: "'s \<Rightarrow> bool" and V P :: "'s \<Rightarrow> real" and gl :: real
  assumes air: "\<And>e a. e \<in> set es \<Longrightarrow> I a \<Longrightarrow> J a \<Longrightarrow>
                  (if J (f e a)
                   then I (f e a) \<and> V (f e a) \<le> V a
                        \<and> (0 \<le> V (f e a) \<longrightarrow> P a \<le> P (f e a))
                        \<and> (V (f e a) \<le> 0 \<longrightarrow> P (f e a) \<le> P a)
                        \<and> gl < P (f e a)
                   else P (f e a) = gl \<and> V (f e a) = 0)"
    and ground: "\<And>e a. e \<in> set es \<Longrightarrow> \<not> J a \<Longrightarrow> \<not> J (f e a)"
    and s: "I s" "gl \<le> P s"
    and k: "k < length es"
    and tr: "tr = trace f es s"
    and airk: "J (tr ! k)"
  shows "(\<forall>j\<le>k. J (tr ! j))
       \<and> (\<forall>i j. i \<le> j \<and> j \<le> k \<longrightarrow> V (tr ! j) \<le> V (tr ! i))
       \<and> (J (tr ! Suc k) \<longrightarrow>
            V (tr ! Suc k) \<le> V (tr ! k)
            \<and> (0 \<le> V (tr ! Suc k) \<longrightarrow> P (tr ! k) \<le> P (tr ! Suc k))
            \<and> (V (tr ! Suc k) \<le> 0 \<longrightarrow> P (tr ! Suc k) \<le> P (tr ! k)))
       \<and> (\<not> J (tr ! Suc k) \<longrightarrow>
            P (tr ! Suc k) = gl \<and> V (tr ! Suc k) = 0
            \<and> P (tr ! Suc k) \<le> P (tr ! k)
            \<and> (0 < k \<longrightarrow> P (tr ! Suc k) < P (tr ! k)))
       \<and> ((\<exists>j\<le>k. V (tr ! j) \<le> 0) \<longrightarrow> P (tr ! Suc k) \<le> P (tr ! k))"
proof -
  have t0: "tr ! 0 = s" by (simp add: tr trace_0)
  have tS: "tr ! Suc j = f (es ! j) (tr ! j)" if "j < length es" for j
    using that by (simp add: tr trace_Suc)
  have mem: "es ! j \<in> set es" if "j < length es" for j
    using that by simp
  have stay: "\<not> J (tr ! (j + n))" if "\<not> J (tr ! j)" "j + n \<le> length es" for j n
    using that(2)
  proof (induction n)
    case 0
    show ?case using that(1) by simp
  next
    case (Suc n)
    then have a: "\<not> J (tr ! (j + n))" and b: "j + n < length es" by simp_all
    have "tr ! Suc (j + n) = f (es ! (j + n)) (tr ! (j + n))" using tS [OF b] .
    then show ?case using ground [OF mem [OF b] a] by simp
  qed
  have A1: "J (tr ! j)" if "j \<le> k" for j
  proof (rule ccontr)
    assume "\<not> J (tr ! j)"
    then have "\<not> J (tr ! (j + (k - j)))"
      using that k by (intro stay) simp_all
    then show False using airk that by simp
  qed
  have step: "if J (tr ! Suc j)
              then I (tr ! Suc j) \<and> V (tr ! Suc j) \<le> V (tr ! j)
                   \<and> (0 \<le> V (tr ! Suc j) \<longrightarrow> P (tr ! j) \<le> P (tr ! Suc j))
                   \<and> (V (tr ! Suc j) \<le> 0 \<longrightarrow> P (tr ! Suc j) \<le> P (tr ! j))
                   \<and> gl < P (tr ! Suc j)
              else P (tr ! Suc j) = gl \<and> V (tr ! Suc j) = 0"
    if "j \<le> k" "I (tr ! j)" for j
  proof -
    have jl: "j < length es" using that(1) k by simp
    show ?thesis
      using air [OF mem [OF jl] that(2) A1 [OF that(1)]] by (simp only: tS [OF jl])
  qed
  have inv: "I (tr ! j) \<and> gl \<le> P (tr ! j) \<and> (0 < j \<longrightarrow> gl < P (tr ! j))" if "j \<le> k" for j
    using that
  proof (induction j)
    case 0
    show ?case using s by (simp add: t0)
  next
    case (Suc j)
    then have i: "I (tr ! j)" and jk: "j \<le> k" by simp_all
    have "J (tr ! Suc j)" using A1 [OF Suc.prems] .
    then show ?case using step [OF jk i] by simp
  qed
  have V1: "V (tr ! Suc j) \<le> V (tr ! j)" if "Suc j \<le> k" for j
  proof -
    have jk: "j \<le> k" using that by simp
    have "J (tr ! Suc j)" using A1 [OF that] .
    then show ?thesis using step [OF jk] inv [OF jk] by simp
  qed
  have V2: "V (tr ! (i + n)) \<le> V (tr ! i)" if "i + n \<le> k" for i n
    using that
  proof (induction n)
    case 0
    show ?case by simp
  next
    case (Suc n)
    then have "V (tr ! (i + n)) \<le> V (tr ! i)" by simp
    moreover have "V (tr ! Suc (i + n)) \<le> V (tr ! (i + n))"
      using Suc.prems by (intro V1) simp
    ultimately show ?case by simp
  qed
  have A2: "V (tr ! j) \<le> V (tr ! i)" if "i \<le> j" "j \<le> k" for i j
    using V2 [of i "j - i"] that by simp
  have ik: "I (tr ! k)" and pk: "gl \<le> P (tr ! k)" and pk': "0 < k \<longrightarrow> gl < P (tr ! k)"
    using inv [of k] by simp_all
  note sk = step [OF order_refl ik]
  have A3: "J (tr ! Suc k) \<longrightarrow>
            V (tr ! Suc k) \<le> V (tr ! k)
            \<and> (0 \<le> V (tr ! Suc k) \<longrightarrow> P (tr ! k) \<le> P (tr ! Suc k))
            \<and> (V (tr ! Suc k) \<le> 0 \<longrightarrow> P (tr ! Suc k) \<le> P (tr ! k))"
    using sk by simp
  have A4: "\<not> J (tr ! Suc k) \<longrightarrow>
            P (tr ! Suc k) = gl \<and> V (tr ! Suc k) = 0
            \<and> P (tr ! Suc k) \<le> P (tr ! k)
            \<and> (0 < k \<longrightarrow> P (tr ! Suc k) < P (tr ! k))"
    using sk pk pk' by simp
  have A5: "P (tr ! Suc k) \<le> P (tr ! k)" if "\<exists>j\<le>k. V (tr ! j) \<le> 0"
  proof (cases "J (tr ! Suc k)")
    case True
    from that obtain j where j: "j \<le> k" "V (tr ! j) \<le> 0" by blast
    have "V (tr ! k) \<le> V (tr ! j)" using A2 [OF j(1) order_refl] .
    then have "V (tr ! Suc k) \<le> 0" using A3 True j(2) by simp
    then show ?thesis using A3 True by simp
  next
    case False
    then show ?thesis using A4 by simp
  qed
  show ?thesis using A1 A2 A3 A4 A5 by blast
qed





text \<open>
  The same frame in binary64. Rounding to nearest is monotone and keeps a value that
  needs no rounding, so a sum with a term that is not positive is not above the other
  term, and a product has the sign of the exact product or is zero.
\<close>

lemma Kangaroo_useFrame_b64_step:
  assumes d: "0 < fst d" and a: "bits53 (fst (snd a)) \<and> bits53 (fst (snd (snd a)))"
    and j: "jumping_b64 a"
  shows "if jumping_b64 (Kangaroo_useFrame_b64 d a)
         then (bits53 (fst (snd (Kangaroo_useFrame_b64 d a)))
               \<and> bits53 (fst (snd (snd (Kangaroo_useFrame_b64 d a)))))
              \<and> velocity_b64 (Kangaroo_useFrame_b64 d a) \<le> velocity_b64 a
              \<and> (0 \<le> velocity_b64 (Kangaroo_useFrame_b64 d a) \<longrightarrow>
                   position_b64 a \<le> position_b64 (Kangaroo_useFrame_b64 d a))
              \<and> (velocity_b64 (Kangaroo_useFrame_b64 d a) \<le> 0 \<longrightarrow>
                   position_b64 (Kangaroo_useFrame_b64 d a) \<le> position_b64 a)
              \<and> 0 < position_b64 (Kangaroo_useFrame_b64 d a)
         else position_b64 (Kangaroo_useFrame_b64 d a) = 0
              \<and> velocity_b64 (Kangaroo_useFrame_b64 d a) = 0"
proof -
  obtain v p ok where s: "a = (True, v, p, ok)"
    using j by (cases a) (simp add: jumping_b64_def)
  have v: "bits53 v" and p: "bits53 p" using a by (simp_all add: s)
  define v1 where "v1 = b64_add v (b64_mul (- 20, 0) d)"
  define p1 where "p1 = b64_add p (b64_mul v1 d)"
  have G: "fst (- 20 :: int, 0 :: int) < 0" by simp
  note st = b64_euler_step [OF G d v p v1_def p1_def]
  have zero: "b64_val (0, 0) = 0" by (simp add: b64_val_def)
  show ?thesis
  proof (cases "b64_le p1 (0, 0)")
    case True
    then have "Kangaroo_useFrame_b64 d a = (False, (0, 0), (0, 0),
        ok \<and> normal_range (b64_mul (- 20, 0) d) \<and> normal_range v1
        \<and> normal_range (b64_mul v1 d) \<and> normal_range p1)"
      by (simp add: s Let_def v1_def p1_def)
    then show ?thesis
      by (simp add: jumping_b64_def velocity_b64_def position_b64_def zero)
  next
    case False
    then have r: "Kangaroo_useFrame_b64 d a = (True, v1, p1,
        ok \<and> normal_range (b64_mul (- 20, 0) d) \<and> normal_range v1
        \<and> normal_range (b64_mul v1 d) \<and> normal_range p1)"
      by (simp add: s Let_def v1_def p1_def)
    have res: "jumping_b64 (Kangaroo_useFrame_b64 d a)"
      "velocity_b64 (Kangaroo_useFrame_b64 d a) = b64_val v1"
      "position_b64 (Kangaroo_useFrame_b64 d a) = b64_val p1"
      "fst (snd (Kangaroo_useFrame_b64 d a)) = v1"
      "fst (snd (snd (Kangaroo_useFrame_b64 d a))) = p1"
      by (simp_all add: r jumping_b64_def velocity_b64_def position_b64_def)
    have va: "velocity_b64 a = b64_val v" "position_b64 a = b64_val p"
      by (simp_all add: s velocity_b64_def position_b64_def)
    have "0 < b64_val p1" using False by (simp add: b64_le_iff zero)
    then show ?thesis
      using st by (simp add: res va)
  qed
qed

lemma Kangaroo_useFrame_p0_b64_step:
  assumes d: "0 < fst d" and a: "bits53 (fst (snd a)) \<and> bits53 (fst (snd (snd a)))"
    and j: "jumping_b64 a"
  shows "if jumping_b64 (Kangaroo_useFrame_p0_b64 d a)
         then (bits53 (fst (snd (Kangaroo_useFrame_p0_b64 d a)))
               \<and> bits53 (fst (snd (snd (Kangaroo_useFrame_p0_b64 d a)))))
              \<and> velocity_b64 (Kangaroo_useFrame_p0_b64 d a) \<le> velocity_b64 a
              \<and> (0 \<le> velocity_b64 (Kangaroo_useFrame_p0_b64 d a) \<longrightarrow>
                   position_b64 a \<le> position_b64 (Kangaroo_useFrame_p0_b64 d a))
              \<and> (velocity_b64 (Kangaroo_useFrame_p0_b64 d a) \<le> 0 \<longrightarrow>
                   position_b64 (Kangaroo_useFrame_p0_b64 d a) \<le> position_b64 a)
              \<and> 0 < position_b64 (Kangaroo_useFrame_p0_b64 d a)
         else position_b64 (Kangaroo_useFrame_p0_b64 d a) = 0
              \<and> velocity_b64 (Kangaroo_useFrame_p0_b64 d a) = 0"
proof -
  obtain v p ok where s: "a = (True, v, p, ok)"
    using j by (cases a) (simp add: jumping_b64_def)
  have v: "bits53 v" and p: "bits53 p" using a by (simp_all add: s)
  define v1 where "v1 = b64_add v (b64_mul (- 15, 0) d)"
  define p1 where "p1 = b64_add p (b64_mul v1 d)"
  have G: "fst (- 15 :: int, 0 :: int) < 0" by simp
  note st = b64_euler_step [OF G d v p v1_def p1_def]
  have zero: "b64_val (0, 0) = 0" by (simp add: b64_val_def)
  show ?thesis
  proof (cases "b64_le p1 (0, 0)")
    case True
    then have "Kangaroo_useFrame_p0_b64 d a = (False, (0, 0), (0, 0),
        ok \<and> normal_range (b64_mul (- 15, 0) d) \<and> normal_range v1
        \<and> normal_range (b64_mul v1 d) \<and> normal_range p1)"
      by (simp add: s Let_def v1_def p1_def)
    then show ?thesis
      by (simp add: jumping_b64_def velocity_b64_def position_b64_def zero)
  next
    case False
    then have r: "Kangaroo_useFrame_p0_b64 d a = (True, v1, p1,
        ok \<and> normal_range (b64_mul (- 15, 0) d) \<and> normal_range v1
        \<and> normal_range (b64_mul v1 d) \<and> normal_range p1)"
      by (simp add: s Let_def v1_def p1_def)
    have res: "jumping_b64 (Kangaroo_useFrame_p0_b64 d a)"
      "velocity_b64 (Kangaroo_useFrame_p0_b64 d a) = b64_val v1"
      "position_b64 (Kangaroo_useFrame_p0_b64 d a) = b64_val p1"
      "fst (snd (Kangaroo_useFrame_p0_b64 d a)) = v1"
      "fst (snd (snd (Kangaroo_useFrame_p0_b64 d a))) = p1"
      by (simp_all add: r jumping_b64_def velocity_b64_def position_b64_def)
    have va: "velocity_b64 a = b64_val v" "position_b64 a = b64_val p"
      by (simp_all add: s velocity_b64_def position_b64_def)
    have "0 < b64_val p1" using False by (simp add: b64_le_iff zero)
    then show ?thesis
      using st by (simp add: res va)
  qed
qed

lemma Kangaroo_useFrame_b64_grounded:
  "\<not> jumping_b64 a \<Longrightarrow> \<not> jumping_b64 (Kangaroo_useFrame_b64 d a)"
  by (cases a) (simp add: jumping_b64_def)

lemma Kangaroo_useFrame_p0_b64_grounded:
  "\<not> jumping_b64 a \<Longrightarrow> \<not> jumping_b64 (Kangaroo_useFrame_p0_b64 d a)"
  by (cases a) (simp add: jumping_b64_def)

text \<open>
  A jump in binary64, for any list of positive deltas: the velocity does not increase
  from one airborne state to the next, the position does not fall while the updated
  velocity is at least \<open>0\<close> and does not rise once it is at most \<open>0\<close>, and the landing
  frame ends at exactly \<open>0\<close>, strictly below the position before it unless it is the
  first frame after the trigger. The model has no exponent bound; it is binary64 as long
  as no result leaves the normal range.
\<close>

lemma jump_episode_b64:
  assumes "\<forall>d\<in>set ds. 0 < fst d" and "k < length ds"
    and "tr = trace Kangaroo_useFrame_b64 ds (jumpInterval_b64 Kangaroo_init_b64)"
    and "jumping_b64 (tr ! k)"
  shows "(\<forall>j\<le>k. jumping_b64 (tr ! j))
       \<and> (\<forall>i j. i \<le> j \<and> j \<le> k \<longrightarrow> velocity_b64 (tr ! j) \<le> velocity_b64 (tr ! i))
       \<and> (jumping_b64 (tr ! Suc k) \<longrightarrow>
            velocity_b64 (tr ! Suc k) \<le> velocity_b64 (tr ! k)
            \<and> (0 \<le> velocity_b64 (tr ! Suc k) \<longrightarrow> position_b64 (tr ! k) \<le> position_b64 (tr ! Suc k))
            \<and> (velocity_b64 (tr ! Suc k) \<le> 0 \<longrightarrow> position_b64 (tr ! Suc k) \<le> position_b64 (tr ! k)))
       \<and> (\<not> jumping_b64 (tr ! Suc k) \<longrightarrow>
            position_b64 (tr ! Suc k) = 0 \<and> velocity_b64 (tr ! Suc k) = 0
            \<and> position_b64 (tr ! Suc k) \<le> position_b64 (tr ! k)
            \<and> (0 < k \<longrightarrow> position_b64 (tr ! Suc k) < position_b64 (tr ! k)))
       \<and> ((\<exists>j\<le>k. velocity_b64 (tr ! j) \<le> 0) \<longrightarrow> position_b64 (tr ! Suc k) \<le> position_b64 (tr ! k))"
proof (rule episode_weak [where f = Kangaroo_useFrame_b64 and es = ds
      and I = "\<lambda>a. bits53 (fst (snd a)) \<and> bits53 (fst (snd (snd a)))"
      and s = "jumpInterval_b64 Kangaroo_init_b64"])
  show "if jumping_b64 (Kangaroo_useFrame_b64 e a)
        then (bits53 (fst (snd (Kangaroo_useFrame_b64 e a)))
              \<and> bits53 (fst (snd (snd (Kangaroo_useFrame_b64 e a)))))
             \<and> velocity_b64 (Kangaroo_useFrame_b64 e a) \<le> velocity_b64 a
             \<and> (0 \<le> velocity_b64 (Kangaroo_useFrame_b64 e a) \<longrightarrow>
                  position_b64 a \<le> position_b64 (Kangaroo_useFrame_b64 e a))
             \<and> (velocity_b64 (Kangaroo_useFrame_b64 e a) \<le> 0 \<longrightarrow>
                  position_b64 (Kangaroo_useFrame_b64 e a) \<le> position_b64 a)
             \<and> 0 < position_b64 (Kangaroo_useFrame_b64 e a)
        else position_b64 (Kangaroo_useFrame_b64 e a) = 0
             \<and> velocity_b64 (Kangaroo_useFrame_b64 e a) = 0"
    if "e \<in> set ds" "bits53 (fst (snd a)) \<and> bits53 (fst (snd (snd a)))" "jumping_b64 a" for e a
    using that assms(1) by (intro Kangaroo_useFrame_b64_step) simp_all
  show "\<not> jumping_b64 (Kangaroo_useFrame_b64 e a)" if "\<not> jumping_b64 a" for e a
    using that by (rule Kangaroo_useFrame_b64_grounded)
  show "bits53 (fst (snd (jumpInterval_b64 Kangaroo_init_b64)))
        \<and> bits53 (fst (snd (snd (jumpInterval_b64 Kangaroo_init_b64))))"
    by (simp add: Kangaroo_init_b64_def bits53_def)
  show "0 \<le> position_b64 (jumpInterval_b64 Kangaroo_init_b64)"
    by (simp add: Kangaroo_init_b64_def position_b64_def b64_val_def)
qed (use assms in simp_all)

lemma jump_episode_p0_b64:
  assumes "\<forall>d\<in>set ds. 0 < fst d" and "k < length ds"
    and "tr = trace Kangaroo_useFrame_p0_b64 ds (jumpInterval_p0_b64 Kangaroo_init_b64)"
    and "jumping_b64 (tr ! k)"
  shows "(\<forall>j\<le>k. jumping_b64 (tr ! j))
       \<and> (\<forall>i j. i \<le> j \<and> j \<le> k \<longrightarrow> velocity_b64 (tr ! j) \<le> velocity_b64 (tr ! i))
       \<and> (jumping_b64 (tr ! Suc k) \<longrightarrow>
            velocity_b64 (tr ! Suc k) \<le> velocity_b64 (tr ! k)
            \<and> (0 \<le> velocity_b64 (tr ! Suc k) \<longrightarrow> position_b64 (tr ! k) \<le> position_b64 (tr ! Suc k))
            \<and> (velocity_b64 (tr ! Suc k) \<le> 0 \<longrightarrow> position_b64 (tr ! Suc k) \<le> position_b64 (tr ! k)))
       \<and> (\<not> jumping_b64 (tr ! Suc k) \<longrightarrow>
            position_b64 (tr ! Suc k) = 0 \<and> velocity_b64 (tr ! Suc k) = 0
            \<and> position_b64 (tr ! Suc k) \<le> position_b64 (tr ! k)
            \<and> (0 < k \<longrightarrow> position_b64 (tr ! Suc k) < position_b64 (tr ! k)))
       \<and> ((\<exists>j\<le>k. velocity_b64 (tr ! j) \<le> 0) \<longrightarrow> position_b64 (tr ! Suc k) \<le> position_b64 (tr ! k))"
proof (rule episode_weak [where f = Kangaroo_useFrame_p0_b64 and es = ds
      and I = "\<lambda>a. bits53 (fst (snd a)) \<and> bits53 (fst (snd (snd a)))"
      and s = "jumpInterval_p0_b64 Kangaroo_init_b64"])
  show "if jumping_b64 (Kangaroo_useFrame_p0_b64 e a)
        then (bits53 (fst (snd (Kangaroo_useFrame_p0_b64 e a)))
              \<and> bits53 (fst (snd (snd (Kangaroo_useFrame_p0_b64 e a)))))
             \<and> velocity_b64 (Kangaroo_useFrame_p0_b64 e a) \<le> velocity_b64 a
             \<and> (0 \<le> velocity_b64 (Kangaroo_useFrame_p0_b64 e a) \<longrightarrow>
                  position_b64 a \<le> position_b64 (Kangaroo_useFrame_p0_b64 e a))
             \<and> (velocity_b64 (Kangaroo_useFrame_p0_b64 e a) \<le> 0 \<longrightarrow>
                  position_b64 (Kangaroo_useFrame_p0_b64 e a) \<le> position_b64 a)
             \<and> 0 < position_b64 (Kangaroo_useFrame_p0_b64 e a)
        else position_b64 (Kangaroo_useFrame_p0_b64 e a) = 0
             \<and> velocity_b64 (Kangaroo_useFrame_p0_b64 e a) = 0"
    if "e \<in> set ds" "bits53 (fst (snd a)) \<and> bits53 (fst (snd (snd a)))" "jumping_b64 a" for e a
    using that assms(1) by (intro Kangaroo_useFrame_p0_b64_step) simp_all
  show "\<not> jumping_b64 (Kangaroo_useFrame_p0_b64 e a)" if "\<not> jumping_b64 a" for e a
    using that by (rule Kangaroo_useFrame_p0_b64_grounded)
  show "bits53 (fst (snd (jumpInterval_p0_b64 Kangaroo_init_b64)))
        \<and> bits53 (fst (snd (snd (jumpInterval_p0_b64 Kangaroo_init_b64))))"
    by (simp add: Kangaroo_init_b64_def bits53_def)
  show "0 \<le> position_b64 (jumpInterval_p0_b64 Kangaroo_init_b64)"
    by (simp add: Kangaroo_init_b64_def position_b64_def b64_val_def)
qed (use assms in simp_all)

text \<open>
  In exact arithmetic the inequalities are strict: the velocity falls on every airborne
  frame, and the position rises, stands or falls as the updated velocity is positive,
  zero or negative.
\<close>

lemma jump_episode_exact:
  assumes "\<forall>e\<in>set es. positive_frame e" and "k < length es"
    and "tr = trace Kangaroo_event es (jumpInterval (Kangaroo_run pre Kangaroo_init))"
    and "tr0 = trace Kangaroo_event_p0 es (jumpInterval_p0 (Kangaroo_run_p0 pre Kangaroo_init_p0))"
  shows "isJumping (tr ! 0)
       \<and> (isJumping (tr ! k) \<longrightarrow>
          (\<forall>j\<le>k. isJumping (tr ! j))
          \<and> (\<forall>i j. i < j \<and> j \<le> k \<longrightarrow> velocityY (tr ! j) < velocityY (tr ! i))
          \<and> (isJumping (tr ! Suc k) \<longrightarrow>
               velocityY (tr ! Suc k) < velocityY (tr ! k)
               \<and> (0 < velocityY (tr ! Suc k) \<longrightarrow> positionY (tr ! k) < positionY (tr ! Suc k))
               \<and> (velocityY (tr ! Suc k) = 0 \<longrightarrow> positionY (tr ! Suc k) = positionY (tr ! k))
               \<and> (velocityY (tr ! Suc k) < 0 \<longrightarrow> positionY (tr ! Suc k) < positionY (tr ! k)))
          \<and> (\<not> isJumping (tr ! Suc k) \<longrightarrow>
               positionY (tr ! Suc k) = groundLevel \<and> velocityY (tr ! Suc k) = 0
               \<and> positionY (tr ! Suc k) \<le> positionY (tr ! k)
               \<and> (0 < k \<longrightarrow> positionY (tr ! Suc k) < positionY (tr ! k)))
          \<and> ((\<exists>j<k. positionY (tr ! Suc j) \<le> positionY (tr ! j)) \<longrightarrow>
               positionY (tr ! Suc k) < positionY (tr ! k)))
       \<and> isJumping (tr0 ! 0)
       \<and> (isJumping (tr0 ! k) \<longrightarrow>
          (\<forall>j\<le>k. isJumping (tr0 ! j))
          \<and> (\<forall>i j. i < j \<and> j \<le> k \<longrightarrow> velocityY (tr0 ! j) < velocityY (tr0 ! i))
          \<and> (isJumping (tr0 ! Suc k) \<longrightarrow>
               velocityY (tr0 ! Suc k) < velocityY (tr0 ! k)
               \<and> (0 < velocityY (tr0 ! Suc k) \<longrightarrow> positionY (tr0 ! k) < positionY (tr0 ! Suc k))
               \<and> (velocityY (tr0 ! Suc k) = 0 \<longrightarrow> positionY (tr0 ! Suc k) = positionY (tr0 ! k))
               \<and> (velocityY (tr0 ! Suc k) < 0 \<longrightarrow> positionY (tr0 ! Suc k) < positionY (tr0 ! k)))
          \<and> (\<not> isJumping (tr0 ! Suc k) \<longrightarrow>
               positionY (tr0 ! Suc k) = groundLevel_p0 \<and> velocityY (tr0 ! Suc k) = 0
               \<and> positionY (tr0 ! Suc k) \<le> positionY (tr0 ! k)
               \<and> (0 < k \<longrightarrow> positionY (tr0 ! Suc k) < positionY (tr0 ! k)))
          \<and> ((\<exists>j<k. positionY (tr0 ! Suc j) \<le> positionY (tr0 ! j)) \<longrightarrow>
               positionY (tr0 ! Suc k) < positionY (tr0 ! k)))"
proof -
  have ends: "isJumping (tr ! 0) \<and> isJumping (tr0 ! 0)"
    by (simp add: assms(3,4) trace_0 jumpInterval_def jumpInterval_p0_def)
  have s: "kangarooRef (jumpInterval (Kangaroo_run pre Kangaroo_init)) \<noteq> None"
    "groundLevel \<le> positionY (jumpInterval (Kangaroo_run pre Kangaroo_init))"
  proof -
    show "kangarooRef (jumpInterval (Kangaroo_run pre Kangaroo_init)) \<noteq> None"
      using Kangaroo_run_mounted [OF Kangaroo_init_mounted, of pre]
      by (simp add: jumpInterval_def del: not_None_eq)
    have "reach_inv groundLevel jumpForce (jumpInterval (Kangaroo_run pre Kangaroo_init))"
      by (intro reach_inv_jumpInterval reach_inv_run reach_inv_init)
    then show "groundLevel \<le> positionY (jumpInterval (Kangaroo_run pre Kangaroo_init))"
      by (simp add: reach_inv_cases split: if_splits)
  qed
  have s0: "kangarooRef (jumpInterval_p0 (Kangaroo_run_p0 pre Kangaroo_init_p0)) \<noteq> None"
    "groundLevel_p0 \<le> positionY (jumpInterval_p0 (Kangaroo_run_p0 pre Kangaroo_init_p0))"
  proof -
    show "kangarooRef (jumpInterval_p0 (Kangaroo_run_p0 pre Kangaroo_init_p0)) \<noteq> None"
      using Kangaroo_run_p0_mounted [OF Kangaroo_init_p0_mounted, of pre]
      by (simp add: jumpInterval_p0_def del: not_None_eq)
    have "reach_inv groundLevel_p0 jumpForce_p0
            (jumpInterval_p0 (Kangaroo_run_p0 pre Kangaroo_init_p0))"
      by (intro reach_inv_jumpInterval_p0 reach_inv_run_p0 reach_inv_init_p0)
    then show "groundLevel_p0 \<le> positionY (jumpInterval_p0 (Kangaroo_run_p0 pre Kangaroo_init_p0))"
      by (simp add: reach_inv_cases split: if_splits)
  qed
  have g: "gravity < 0" and g0: "gravity_p0 < 0"
    by (simp_all add: gravity_def gravity_p0_def)
  have a: "(\<forall>j\<le>k. isJumping (tr ! j))
          \<and> (\<forall>i j. i < j \<and> j \<le> k \<longrightarrow> velocityY (tr ! j) < velocityY (tr ! i))
          \<and> (isJumping (tr ! Suc k) \<longrightarrow>
               velocityY (tr ! Suc k) < velocityY (tr ! k)
               \<and> (0 < velocityY (tr ! Suc k) \<longrightarrow> positionY (tr ! k) < positionY (tr ! Suc k))
               \<and> (velocityY (tr ! Suc k) = 0 \<longrightarrow> positionY (tr ! Suc k) = positionY (tr ! k))
               \<and> (velocityY (tr ! Suc k) < 0 \<longrightarrow> positionY (tr ! Suc k) < positionY (tr ! k)))
          \<and> (\<not> isJumping (tr ! Suc k) \<longrightarrow>
               positionY (tr ! Suc k) = groundLevel \<and> velocityY (tr ! Suc k) = 0
               \<and> positionY (tr ! Suc k) \<le> positionY (tr ! k)
               \<and> (0 < k \<longrightarrow> positionY (tr ! Suc k) < positionY (tr ! k)))
          \<and> ((\<exists>j<k. positionY (tr ! Suc j) \<le> positionY (tr ! j)) \<longrightarrow>
               positionY (tr ! Suc k) < positionY (tr ! k))"
    if "isJumping (tr ! k)"
    by (rule episode_generic [of gravity groundLevel Kangaroo_event es
          "jumpInterval (Kangaroo_run pre Kangaroo_init)" k tr,
          OF Kangaroo_event_airborne Kangaroo_event_grounded Kangaroo_event_mounted g
             assms(1) s assms(2) assms(3) that])
  have b: "(\<forall>j\<le>k. isJumping (tr0 ! j))
          \<and> (\<forall>i j. i < j \<and> j \<le> k \<longrightarrow> velocityY (tr0 ! j) < velocityY (tr0 ! i))
          \<and> (isJumping (tr0 ! Suc k) \<longrightarrow>
               velocityY (tr0 ! Suc k) < velocityY (tr0 ! k)
               \<and> (0 < velocityY (tr0 ! Suc k) \<longrightarrow> positionY (tr0 ! k) < positionY (tr0 ! Suc k))
               \<and> (velocityY (tr0 ! Suc k) = 0 \<longrightarrow> positionY (tr0 ! Suc k) = positionY (tr0 ! k))
               \<and> (velocityY (tr0 ! Suc k) < 0 \<longrightarrow> positionY (tr0 ! Suc k) < positionY (tr0 ! k)))
          \<and> (\<not> isJumping (tr0 ! Suc k) \<longrightarrow>
               positionY (tr0 ! Suc k) = groundLevel_p0 \<and> velocityY (tr0 ! Suc k) = 0
               \<and> positionY (tr0 ! Suc k) \<le> positionY (tr0 ! k)
               \<and> (0 < k \<longrightarrow> positionY (tr0 ! Suc k) < positionY (tr0 ! k)))
          \<and> ((\<exists>j<k. positionY (tr0 ! Suc j) \<le> positionY (tr0 ! j)) \<longrightarrow>
               positionY (tr0 ! Suc k) < positionY (tr0 ! k))"
    if "isJumping (tr0 ! k)"
    by (rule episode_generic [of gravity_p0 groundLevel_p0 Kangaroo_event_p0 es
          "jumpInterval_p0 (Kangaroo_run_p0 pre Kangaroo_init_p0)" k tr0,
          OF Kangaroo_event_p0_airborne Kangaroo_event_p0_grounded Kangaroo_event_p0_mounted g0
             assms(1) s0 assms(2) assms(4) that])
  show ?thesis
    using ends a b by (simp only: simp_thms) blast
qed

text \<open>
  Binary64 does not keep the strict inequalities. The run of \<open>four_frames\<close> is the same
  there (velocities \<open>9, 4, 0, -2, 0\<close>, positions \<open>0, 1, 1, 0.8, 0\<close>). After a trigger in
  \<open>part_000\<close> and a frame with \<open>delta = 0.5\<close> (velocity \<open>0.5\<close>, position \<open>0.25\<close>), a frame
  with \<open>delta = 0.033333333333333326\<close> ends with the velocity \<open>2^-53\<close>, which is positive,
  and with the position still \<open>0.25\<close>: the increment \<open>2^-53 * delta\<close> is lost in the
  rounding of the sum.
\<close>

lemma four_frames_b64_trace:
  "trace Kangaroo_useFrame_b64 four_frames_b64 (jumpInterval_b64 Kangaroo_init_b64)
   = [(True, (9, 0), (0, 0), True),
      (True, (16, - 2), (16, - 4), True),
      (True, (0, - 50), (4503599627370496, - 52), True),
      (True, (- 4503599627370496, - 51), (7205759403792794, - 53), True),
      (False, (0, 0), (0, 0), True)]"
  by code_simp

lemma four_frames_b64_values:
  "b64_val (16, - 2) = 4" "b64_val (16, - 4) = 1" "b64_val (0, - 50) = 0"
  "b64_val (4503599627370496, - 52) = 1" "b64_val (- 4503599627370496, - 51) = - 2"
  by (simp_all add: b64_val_def power_int_minus)

lemma Kangaroo_b64_position_absorbed:
  "Kangaroo_useFrame_p0_b64 (1, - 1) (jumpInterval_p0_b64 Kangaroo_init_b64)
     = (True, (1, - 1), (1, - 2), True)
   \<and> Kangaroo_useFrame_p0_b64 (300239975158033, - 53) (True, (1, - 1), (1, - 2), True)
     = (True, (1, - 53), (4503599627370496, - 54), True)
   \<and> 0 < b64_val (1, - 53)
   \<and> b64_val (4503599627370496, - 54) = b64_val (1, - 2)"
proof -
  have "Kangaroo_useFrame_p0_b64 (1, - 1) (jumpInterval_p0_b64 Kangaroo_init_b64)
     = (True, (1, - 1), (1, - 2), True)"
    by code_simp
  moreover have
    "Kangaroo_useFrame_p0_b64 (300239975158033, - 53) (True, (1, - 1), (1, - 2), True)
     = (True, (1, - 53), (4503599627370496, - 54), True)"
    by code_simp
  moreover have "0 < b64_val (1, - 53)" "b64_val (4503599627370496, - 54) = b64_val (1, - 2)"
    by (simp_all add: b64_val_def power_int_minus)
  ultimately show ?thesis by (simp only: simp_thms)
qed

section \<open>Theorems\<close>

text \<open>
  C1. A frame executed while \<open>isJumping\<close> is true, on the mounted group, first adds
  \<open>gravity * dt\<close> to \<open>velocityY\<close> and then adds the updated velocity times \<open>dt\<close> to
  \<open>positionY\<close>. If the position so obtained is at most \<open>groundLevel\<close>, the same frame
  ends with \<open>positionY = groundLevel\<close>, \<open>velocityY = 0\<close> and \<open>isJumping\<close> false;
  otherwise it ends with the two integrated values and \<open>isJumping\<close> still true. This
  holds for every \<open>dt\<close>, so for every \<open>dt \<ge> 0\<close>, and for both source files.
\<close>

theorem Kangaroo_useFrame_euler_step:
  assumes "kangarooRef s = Some g" and "isJumping s"
  shows "velocityY (Kangaroo_useFrame t dt s) =
           (if positionY s + (velocityY s + gravity * dt) * dt \<le> groundLevel
            then 0 else velocityY s + gravity * dt)
       \<and> positionY (Kangaroo_useFrame t dt s) =
           (if positionY s + (velocityY s + gravity * dt) * dt \<le> groundLevel
            then groundLevel else positionY s + (velocityY s + gravity * dt) * dt)
       \<and> isJumping (Kangaroo_useFrame t dt s) =
           (\<not> positionY s + (velocityY s + gravity * dt) * dt \<le> groundLevel)
       \<and> velocityY (Kangaroo_useFrame_p0 t dt s) =
           (if positionY s + (velocityY s + gravity_p0 * dt) * dt \<le> groundLevel_p0
            then 0 else velocityY s + gravity_p0 * dt)
       \<and> positionY (Kangaroo_useFrame_p0 t dt s) =
           (if positionY s + (velocityY s + gravity_p0 * dt) * dt \<le> groundLevel_p0
            then groundLevel_p0 else positionY s + (velocityY s + gravity_p0 * dt) * dt)
       \<and> isJumping (Kangaroo_useFrame_p0 t dt s) =
           (\<not> positionY s + (velocityY s + gravity_p0 * dt) * dt \<le> groundLevel_p0)"
  using assms
  by (simp add: Kangaroo_useFrame_airborne [OF assms] Kangaroo_useFrame_p0_airborne [OF assms])

theorem Kangaroo_useFrame_euler_step_witness:
  "kangarooRef (jumpInterval Kangaroo_init) = Some \<lparr>position_x = - 1, position_y = 0, rotation_y = 0\<rparr>
   \<and> isJumping (jumpInterval Kangaroo_init)
   \<and> velocityY (Kangaroo_useFrame 0 (1/10) (jumpInterval Kangaroo_init)) = 7
   \<and> positionY (Kangaroo_useFrame 0 (1/10) (jumpInterval Kangaroo_init)) = 7/10
   \<and> isJumping (Kangaroo_useFrame 0 (1/10) (jumpInterval Kangaroo_init))
   \<and> velocityY (Kangaroo_useFrame 0 1 (jumpInterval Kangaroo_init)) = 0
   \<and> positionY (Kangaroo_useFrame 0 1 (jumpInterval Kangaroo_init)) = 0
   \<and> \<not> isJumping (Kangaroo_useFrame 0 1 (jumpInterval Kangaroo_init))"
proof -
  have m: "kangarooRef (jumpInterval Kangaroo_init)
             = Some \<lparr>position_x = - 1, position_y = 0, rotation_y = 0\<rparr>"
    by (simp add: jumpInterval_def Kangaroo_init_def)
  have j: "isJumping (jumpInterval Kangaroo_init)"
    by (simp add: jumpInterval_def Kangaroo_init_def)
  have v: "velocityY (jumpInterval Kangaroo_init) = 9"
    and p: "positionY (jumpInterval Kangaroo_init) = 0"
    by (simp_all add: jumpInterval_def Kangaroo_init_def jumpForce_def)
  show ?thesis
    using m j Kangaroo_useFrame_euler_step [OF m j, of 0 "1/10"]
      Kangaroo_useFrame_euler_step [OF m j, of 0 1]
    by (simp add: v p gravity_def groundLevel_def)
qed

text \<open>
  C2. Each of the four frame callbacks (Hills and Clouds, in either file) is \<open>tick\<close> on
  the group's \<open>position.x\<close> with the parameters of that component, and the offset after
  \<open>tick\<close> is the pre-tick offset minus \<open>speed * dt\<close> when that value is at least
  \<open>-wrapThreshold\<close>, and is \<open>resetValue\<close> when that value is less than \<open>-wrapThreshold\<close>.
  This holds for every \<open>dt\<close>, so for every \<open>dt \<ge> 0\<close>.
\<close>

theorem scroll_tick_offset:
  "offsetX (tick dt G) =
     (if offsetX G - speed G * dt < - wrapThreshold G then resetValue G
      else offsetX G - speed G * dt)
   \<and> Hills_useFrame dt (Some g) =
       Some (g\<lparr>position_x := offsetX (tick dt (Hills_group (position_x g)))\<rparr>)
   \<and> Clouds_useFrame dt (Some g) =
       Some (g\<lparr>position_x := offsetX (tick dt (Clouds_group (position_x g)))\<rparr>)
   \<and> Hills_useFrame_p0 dt (Some g) =
       Some (g\<lparr>position_x := offsetX (tick dt (Hills_group_p0 (position_x g)))\<rparr>)
   \<and> Clouds_useFrame_p0 dt (Some g) =
       Some (g\<lparr>position_x := offsetX (tick dt (Clouds_group_p0 (position_x g)))\<rparr>)"
  by (simp only: tick_offsetX Hills_useFrame_tick Clouds_useFrame_tick
      Hills_useFrame_p0_tick Clouds_useFrame_p0_tick simp_thms)

theorem scroll_tick_offset_witness:
  "Hills_useFrame_p0 1 (Some \<lparr>position_x = - 38, position_y = 0, rotation_y = 0\<rparr>)
     = Some \<lparr>position_x = 0, position_y = 0, rotation_y = 0\<rparr>
   \<and> Hills_useFrame_p0 1 (Some \<lparr>position_x = - 30, position_y = 0, rotation_y = 0\<rparr>)
     = Some \<lparr>position_x = - 35, position_y = 0, rotation_y = 0\<rparr>
   \<and> Clouds_useFrame 2 (Some \<lparr>position_x = - 58, position_y = 0, rotation_y = 0\<rparr>)
     = Some \<lparr>position_x = 0, position_y = 0, rotation_y = 0\<rparr>
   \<and> Clouds_useFrame 2 (Some \<lparr>position_x = - 10, position_y = 0, rotation_y = 0\<rparr>)
     = Some \<lparr>position_x = - 13, position_y = 0, rotation_y = 0\<rparr>"
  using scroll_tick_offset
      [of 1 "Hills_group_p0 (- 38)" "\<lparr>position_x = - 38, position_y = 0, rotation_y = 0\<rparr>"]
    scroll_tick_offset
      [of 1 "Hills_group_p0 (- 30)" "\<lparr>position_x = - 30, position_y = 0, rotation_y = 0\<rparr>"]
    scroll_tick_offset
      [of 2 "Clouds_group (- 58)" "\<lparr>position_x = - 58, position_y = 0, rotation_y = 0\<rparr>"]
    scroll_tick_offset
      [of 2 "Clouds_group (- 10)" "\<lparr>position_x = - 10, position_y = 0, rotation_y = 0\<rparr>"]
  by (simp add: Hills_group_p0_def Clouds_group_def)

text \<open>
  C3, as stated, fails for the \<open>isJumping\<close> that the callbacks read. The interval
  callback writes \<open>velocityY.current = jumpForce\<close> at once, but its \<open>setIsJumping(true)\<close>
  reaches the frame callback only with the next render. A frame that runs before that
  render (\<open>TimerCall\<close> and then \<open>FrameCall\<close>, no \<open>Render\<close> between them) ends with the frame
  callback's \<open>isJumping\<close> still false and \<open>velocityY = jumpForce\<close>, which is not zero:
  \<open>9\<close> in \<open>index.tsx\<close>, \<open>8\<close> in \<open>part_000\<close>.
\<close>

theorem JumpState_before_render_counterexample:
  "\<not> frame_isJumping (Kangaroo_calls [TimerCall, FrameCall (1/60) (1/60)] Kangaroo_mount)
   \<and> velocityY (current (Kangaroo_calls [TimerCall, FrameCall (1/60) (1/60)] Kangaroo_mount)) = 9
   \<and> positionY (current (Kangaroo_calls [TimerCall, FrameCall (1/60) (1/60)] Kangaroo_mount)) = 0
   \<and> \<not> frame_isJumping (Kangaroo_calls_p0 [TimerCall, FrameCall (1/60) (1/60)] Kangaroo_mount_p0)
   \<and> velocityY (current (Kangaroo_calls_p0 [TimerCall, FrameCall (1/60) (1/60)] Kangaroo_mount_p0))
       = 8
   \<and> positionY (current (Kangaroo_calls_p0 [TimerCall, FrameCall (1/60) (1/60)] Kangaroo_mount_p0))
       = 0"
  by (simp add: Kangaroo_calls_def Kangaroo_calls_p0_def Kangaroo_mount_def Kangaroo_mount_p0_def
      Kangaroo_onInterval_def Kangaroo_onInterval_p0_def Kangaroo_onFrame_def
      Kangaroo_onFrame_p0_def Kangaroo_init_def Kangaroo_init_p0_def jumpForce_def
      jumpForce_p0_def)

text \<open>
  C3, amended. Let \<open>c\<close> be the component after any list of frame calls (with any \<open>delta\<close>,
  so in particular with \<open>delta \<ge> 0\<close>), interval calls, renders and effects, from the
  mounted component. Then \<open>positionY\<close> is at least \<open>groundLevel\<close>. For the \<open>isJumping\<close>
  most recently passed to \<open>setIsJumping\<close> (that of \<open>useState(false)\<close> at first), \<open>velocityY\<close>
  is non-zero only when \<open>isJumping\<close> is true, and when \<open>isJumping\<close> is false,
  \<open>positionY = groundLevel\<close> and \<open>velocityY = 0\<close>. For the \<open>isJumping\<close> that the frame
  callback reads, there is one exception, the state between a trigger and the render it
  requested: \<open>velocityY\<close> is non-zero only when that \<open>isJumping\<close> is true or the state is
  the one a trigger leaves (\<open>setIsJumping(true)\<close> was the last call,
  \<open>positionY = groundLevel\<close>, \<open>velocityY = jumpForce\<close>); and when that \<open>isJumping\<close> is
  false, \<open>positionY = groundLevel\<close>, and \<open>velocityY\<close> is \<open>0\<close> or, after such a trigger,
  \<open>jumpForce\<close>.
\<close>

theorem JumpState_invariants_between_renders:
  assumes "c = Kangaroo_calls cs Kangaroo_mount" and "c0 = Kangaroo_calls_p0 cs Kangaroo_mount_p0"
  shows "groundLevel \<le> positionY (current c)
     \<and> (velocityY (current c) \<noteq> 0 \<longrightarrow> isJumping (current c))
     \<and> (\<not> isJumping (current c) \<longrightarrow>
          positionY (current c) = groundLevel \<and> velocityY (current c) = 0)
     \<and> (velocityY (current c) \<noteq> 0 \<longrightarrow>
          frame_isJumping c
          \<or> isJumping (current c) \<and> positionY (current c) = groundLevel
            \<and> velocityY (current c) = jumpForce)
     \<and> (\<not> frame_isJumping c \<longrightarrow>
          positionY (current c) = groundLevel
          \<and> (velocityY (current c) = 0
             \<or> isJumping (current c) \<and> velocityY (current c) = jumpForce))
     \<and> groundLevel_p0 \<le> positionY (current c0)
     \<and> (velocityY (current c0) \<noteq> 0 \<longrightarrow> isJumping (current c0))
     \<and> (\<not> isJumping (current c0) \<longrightarrow>
          positionY (current c0) = groundLevel_p0 \<and> velocityY (current c0) = 0)
     \<and> (velocityY (current c0) \<noteq> 0 \<longrightarrow>
          frame_isJumping c0
          \<or> isJumping (current c0) \<and> positionY (current c0) = groundLevel_p0
            \<and> velocityY (current c0) = jumpForce_p0)
     \<and> (\<not> frame_isJumping c0 \<longrightarrow>
          positionY (current c0) = groundLevel_p0
          \<and> (velocityY (current c0) = 0
             \<or> isJumping (current c0) \<and> velocityY (current c0) = jumpForce_p0))"
proof -
  have "render_inv groundLevel jumpForce c"
    unfolding assms(1) by (rule render_inv_calls [OF render_inv_mount(1)])
  moreover have "render_inv groundLevel_p0 jumpForce_p0 c0"
    unfolding assms(2) by (rule render_inv_calls_p0 [OF render_inv_mount(2)])
  ultimately show ?thesis
    using render_inv_cases [of groundLevel jumpForce c]
      render_inv_cases [of groundLevel_p0 jumpForce_p0 c0]
    by blast
qed

theorem JumpState_invariants_between_renders_witness:
  "velocityY (current (Kangaroo_calls [TimerCall, Render, Effect, FrameCall (1/10) (1/10)]
      Kangaroo_mount)) = 7
   \<and> frame_isJumping (Kangaroo_calls [TimerCall, Render, Effect, FrameCall (1/10) (1/10)]
       Kangaroo_mount)
   \<and> isJumping (current (Kangaroo_calls [TimerCall, Render, Effect, FrameCall (1/10) (1/10)]
       Kangaroo_mount))
   \<and> velocityY (current (Kangaroo_calls_p0 [TimerCall, Render, Effect, FrameCall (1/10) (1/10)]
       Kangaroo_mount_p0)) = 13/2
   \<and> frame_isJumping (Kangaroo_calls_p0 [TimerCall, Render, Effect, FrameCall (1/10) (1/10)]
       Kangaroo_mount_p0)
   \<and> isJumping (current (Kangaroo_calls_p0 [TimerCall, Render, Effect, FrameCall (1/10) (1/10)]
       Kangaroo_mount_p0))
   \<and> \<not> frame_isJumping (Kangaroo_calls [TimerCall, Render, FrameCall 1 1, Render] Kangaroo_mount)
   \<and> \<not> isJumping (current (Kangaroo_calls [TimerCall, Render, FrameCall 1 1, Render]
         Kangaroo_mount))
   \<and> positionY (current (Kangaroo_calls [TimerCall, Render, FrameCall 1 1, Render]
       Kangaroo_mount)) = groundLevel
   \<and> velocityY (current (Kangaroo_calls [TimerCall, Render, FrameCall 1 1, Render]
       Kangaroo_mount)) = 0
   \<and> \<not> frame_isJumping (Kangaroo_calls_p0 [TimerCall, Render, FrameCall 1 1, Render]
         Kangaroo_mount_p0)
   \<and> \<not> isJumping (current (Kangaroo_calls_p0 [TimerCall, Render, FrameCall 1 1, Render]
         Kangaroo_mount_p0))
   \<and> positionY (current (Kangaroo_calls_p0 [TimerCall, Render, FrameCall 1 1, Render]
       Kangaroo_mount_p0)) = groundLevel_p0
   \<and> velocityY (current (Kangaroo_calls_p0 [TimerCall, Render, FrameCall 1 1, Render]
       Kangaroo_mount_p0)) = 0
   \<and> \<not> frame_isJumping (Kangaroo_calls [TimerCall] Kangaroo_mount)
   \<and> isJumping (current (Kangaroo_calls [TimerCall] Kangaroo_mount))
   \<and> positionY (current (Kangaroo_calls [TimerCall] Kangaroo_mount)) = groundLevel
   \<and> velocityY (current (Kangaroo_calls [TimerCall] Kangaroo_mount)) = jumpForce
   \<and> \<not> frame_isJumping (Kangaroo_calls_p0 [TimerCall] Kangaroo_mount_p0)
   \<and> isJumping (current (Kangaroo_calls_p0 [TimerCall] Kangaroo_mount_p0))
   \<and> positionY (current (Kangaroo_calls_p0 [TimerCall] Kangaroo_mount_p0)) = groundLevel_p0
   \<and> velocityY (current (Kangaroo_calls_p0 [TimerCall] Kangaroo_mount_p0)) = jumpForce_p0"
  using JumpState_invariants_between_renders
      [of "Kangaroo_calls [TimerCall, Render, Effect, FrameCall (1/10) (1/10)] Kangaroo_mount"
        "[TimerCall, Render, Effect, FrameCall (1/10) (1/10)]"
        "Kangaroo_calls_p0 [TimerCall, Render, Effect, FrameCall (1/10) (1/10)] Kangaroo_mount_p0"]
    JumpState_invariants_between_renders
      [of "Kangaroo_calls [TimerCall, Render, FrameCall 1 1, Render] Kangaroo_mount"
        "[TimerCall, Render, FrameCall 1 1, Render]"
        "Kangaroo_calls_p0 [TimerCall, Render, FrameCall 1 1, Render] Kangaroo_mount_p0"]
    JumpState_invariants_between_renders
      [of "Kangaroo_calls [TimerCall] Kangaroo_mount" "[TimerCall]"
        "Kangaroo_calls_p0 [TimerCall] Kangaroo_mount_p0"]
  by (simp add: Kangaroo_calls_def Kangaroo_calls_p0_def Kangaroo_mount_def Kangaroo_mount_p0_def
      Kangaroo_onInterval_def Kangaroo_onInterval_p0_def Kangaroo_onFrame_def
      Kangaroo_onFrame_p0_def Kangaroo_render_def Kangaroo_useEffect_def Kangaroo_init_def
      Kangaroo_init_p0_def jumpForce_def jumpForce_p0_def gravity_def gravity_p0_def
      groundLevel_def groundLevel_p0_def)

text \<open>
  C4, as stated, fails: in the state right after a trigger (\<open>isJumping\<close> true,
  \<open>velocityY = jumpForce\<close>, \<open>positionY = groundLevel\<close>) a frame with \<open>delta = 0\<close>
  leaves \<open>positionY\<close> at \<open>groundLevel\<close>, the test \<open>positionY <= groundLevel\<close> succeeds,
  and the frame lands: \<open>velocityY\<close> becomes \<open>0\<close> and \<open>isJumping\<close> false.
\<close>

theorem tick_zero_after_trigger_counterexample:
  "isJumping (jumpInterval Kangaroo_init)
   \<and> velocityY (jumpInterval Kangaroo_init) = jumpForce
   \<and> positionY (jumpInterval Kangaroo_init) = groundLevel
   \<and> \<not> isJumping (Kangaroo_useFrame 0 0 (jumpInterval Kangaroo_init))
   \<and> velocityY (Kangaroo_useFrame 0 0 (jumpInterval Kangaroo_init)) = 0
   \<and> jumpForce \<noteq> 0
   \<and> isJumping (jumpInterval_p0 Kangaroo_init_p0)
   \<and> velocityY (jumpInterval_p0 Kangaroo_init_p0) = jumpForce_p0
   \<and> positionY (jumpInterval_p0 Kangaroo_init_p0) = groundLevel_p0
   \<and> \<not> isJumping (Kangaroo_useFrame_p0 0 0 (jumpInterval_p0 Kangaroo_init_p0))
   \<and> velocityY (Kangaroo_useFrame_p0 0 0 (jumpInterval_p0 Kangaroo_init_p0)) = 0
   \<and> jumpForce_p0 \<noteq> 0"
  by (simp add: jumpInterval_def jumpInterval_p0_def Kangaroo_init_def Kangaroo_init_p0_def
      Kangaroo_useFrame_def Kangaroo_useFrame_p0_def jumpForce_def jumpForce_p0_def
      groundLevel_def groundLevel_p0_def gravity_def gravity_p0_def)

text \<open>
  C4, amended. A frame with \<open>delta = 0\<close> leaves the ref content of every scrolling
  group unchanged in every state reached from the mounted group by frames. For the jump
  simulator, in every state \<open>s\<close> reached from the initial state by frames and timer
  firings: if \<open>s\<close> is airborne at ground level then it is the state right after a
  trigger (\<open>velocityY = jumpForce\<close>) and the frame with \<open>delta = 0\<close> lands (\<open>isJumping\<close>
  false, \<open>velocityY = 0\<close>, \<open>positionY = groundLevel\<close>); in every other reachable state
  the frame with \<open>delta = 0\<close> leaves \<open>isJumping\<close>, \<open>velocityY\<close> and \<open>positionY\<close> unchanged.
\<close>

theorem tick_zero_reachable:
  assumes "h = fold Hills_useFrame ds mounted_at_origin"
    and "c = fold Clouds_useFrame ds mounted_at_origin"
    and "h0 = fold Hills_useFrame_p0 ds mounted_at_origin"
    and "c0 = fold Clouds_useFrame_p0 ds mounted_at_origin"
    and "s = Kangaroo_run es Kangaroo_init"
    and "s0 = Kangaroo_run_p0 es Kangaroo_init_p0"
  shows "Hills_useFrame 0 h = h \<and> Clouds_useFrame 0 c = c
       \<and> Hills_useFrame_p0 0 h0 = h0 \<and> Clouds_useFrame_p0 0 c0 = c0
       \<and> (isJumping s \<and> positionY s = groundLevel \<longrightarrow>
            velocityY s = jumpForce
            \<and> \<not> isJumping (Kangaroo_useFrame t 0 s)
            \<and> velocityY (Kangaroo_useFrame t 0 s) = 0
            \<and> positionY (Kangaroo_useFrame t 0 s) = groundLevel)
       \<and> (\<not> (isJumping s \<and> positionY s = groundLevel) \<longrightarrow>
            isJumping (Kangaroo_useFrame t 0 s) = isJumping s
            \<and> velocityY (Kangaroo_useFrame t 0 s) = velocityY s
            \<and> positionY (Kangaroo_useFrame t 0 s) = positionY s)
       \<and> (isJumping s0 \<and> positionY s0 = groundLevel_p0 \<longrightarrow>
            velocityY s0 = jumpForce_p0
            \<and> \<not> isJumping (Kangaroo_useFrame_p0 t 0 s0)
            \<and> velocityY (Kangaroo_useFrame_p0 t 0 s0) = 0
            \<and> positionY (Kangaroo_useFrame_p0 t 0 s0) = groundLevel_p0)
       \<and> (\<not> (isJumping s0 \<and> positionY s0 = groundLevel_p0) \<longrightarrow>
            isJumping (Kangaroo_useFrame_p0 t 0 s0) = isJumping s0
            \<and> velocityY (Kangaroo_useFrame_p0 t 0 s0) = velocityY s0
            \<and> positionY (Kangaroo_useFrame_p0 t 0 s0) = positionY s0)"
proof -
  have scroll: "Hills_useFrame 0 h = h \<and> Clouds_useFrame 0 c = c
       \<and> Hills_useFrame_p0 0 h0 = h0 \<and> Clouds_useFrame_p0 0 c0 = c0"
    unfolding assms
    by (simp only: Hills_useFrame_reachable_zero Clouds_useFrame_reachable_zero
        Hills_useFrame_p0_reachable_zero Clouds_useFrame_p0_reachable_zero simp_thms)
  have k: "reach_inv groundLevel jumpForce s" "kangarooRef s \<noteq> None"
    unfolding assms
    by (rule reach_inv_run [OF reach_inv_init], rule Kangaroo_run_mounted [OF Kangaroo_init_mounted])
  have k0: "reach_inv groundLevel_p0 jumpForce_p0 s0" "kangarooRef s0 \<noteq> None"
    unfolding assms
    by (rule reach_inv_run_p0 [OF reach_inv_init_p0],
        rule Kangaroo_run_p0_mounted [OF Kangaroo_init_p0_mounted])
  show ?thesis
    using scroll Kangaroo_useFrame_zero [OF k, of t] Kangaroo_useFrame_p0_zero [OF k0, of t]
    by blast
qed

theorem tick_zero_reachable_witness:
  "Hills_useFrame 0 (fold Hills_useFrame [1/60] mounted_at_origin)
     = fold Hills_useFrame [1/60] mounted_at_origin
   \<and> isJumping (Kangaroo_run [Timer] Kangaroo_init)
   \<and> positionY (Kangaroo_run [Timer] Kangaroo_init) = groundLevel
   \<and> \<not> isJumping (Kangaroo_useFrame 0 0 (Kangaroo_run [Timer] Kangaroo_init))
   \<and> isJumping (Kangaroo_run_p0 [Timer] Kangaroo_init_p0)
   \<and> positionY (Kangaroo_run_p0 [Timer] Kangaroo_init_p0) = groundLevel_p0
   \<and> \<not> isJumping (Kangaroo_useFrame_p0 0 0 (Kangaroo_run_p0 [Timer] Kangaroo_init_p0))
   \<and> \<not> (isJumping (Kangaroo_run [Timer, Frame (1/10) (1/10)] Kangaroo_init)
        \<and> positionY (Kangaroo_run [Timer, Frame (1/10) (1/10)] Kangaroo_init) = groundLevel)
   \<and> velocityY (Kangaroo_useFrame 0 0 (Kangaroo_run [Timer, Frame (1/10) (1/10)] Kangaroo_init))
       = velocityY (Kangaroo_run [Timer, Frame (1/10) (1/10)] Kangaroo_init)
   \<and> \<not> (isJumping (Kangaroo_run_p0 [Timer, Frame (1/10) (1/10)] Kangaroo_init_p0)
        \<and> positionY (Kangaroo_run_p0 [Timer, Frame (1/10) (1/10)] Kangaroo_init_p0) = groundLevel_p0)
   \<and> velocityY (Kangaroo_useFrame_p0 0 0 (Kangaroo_run_p0 [Timer, Frame (1/10) (1/10)] Kangaroo_init_p0))
       = velocityY (Kangaroo_run_p0 [Timer, Frame (1/10) (1/10)] Kangaroo_init_p0)"
proof -
  have a: "isJumping (Kangaroo_run [Timer] Kangaroo_init)
           \<and> positionY (Kangaroo_run [Timer] Kangaroo_init) = groundLevel"
    by (simp add: Kangaroo_run_def jumpInterval_def Kangaroo_init_def groundLevel_def)
  have a0: "isJumping (Kangaroo_run_p0 [Timer] Kangaroo_init_p0)
            \<and> positionY (Kangaroo_run_p0 [Timer] Kangaroo_init_p0) = groundLevel_p0"
    by (simp add: Kangaroo_run_p0_def jumpInterval_p0_def Kangaroo_init_p0_def groundLevel_p0_def)
  have b: "positionY (Kangaroo_run [Timer, Frame (1/10) (1/10)] Kangaroo_init) \<noteq> groundLevel"
    by (simp add: Kangaroo_run_def jumpInterval_def Kangaroo_init_def Kangaroo_useFrame_def
        jumpForce_def gravity_def groundLevel_def)
  have b0: "positionY (Kangaroo_run_p0 [Timer, Frame (1/10) (1/10)] Kangaroo_init_p0) \<noteq> groundLevel_p0"
    by (simp add: Kangaroo_run_p0_def jumpInterval_p0_def Kangaroo_init_p0_def
        Kangaroo_useFrame_p0_def jumpForce_p0_def gravity_p0_def groundLevel_p0_def)
  show ?thesis
    using a a0 b b0
      tick_zero_reachable [OF refl refl refl refl refl refl, of "[1/60]" "[Timer]" 0]
      tick_zero_reachable [OF refl refl refl refl refl refl, of "[1/60]"
        "[Timer, Frame (1/10) (1/10)]" 0]
    by blast
qed

text \<open>
  C5. A firing of the auto-jump timer while \<open>isJumping\<close> is true changes nothing: the
  whole state, and so \<open>isJumping\<close>, \<open>velocityY\<close> and \<open>positionY\<close>, is the one from
  before the firing. This holds for the callback of either source file.
\<close>

theorem jumpInterval_airborne_noop:
  "isJumping s \<Longrightarrow> jumpInterval s = s \<and> jumpInterval_p0 s = s"
  by (simp add: jumpInterval_def jumpInterval_p0_def)

theorem jumpInterval_airborne_noop_witness:
  "isJumping (Kangaroo_init\<lparr>isJumping := True, velocityY := 4, positionY := 1\<rparr>)
   \<and> jumpInterval (Kangaroo_init\<lparr>isJumping := True, velocityY := 4, positionY := 1\<rparr>)
       = Kangaroo_init\<lparr>isJumping := True, velocityY := 4, positionY := 1\<rparr>
   \<and> jumpInterval_p0 (Kangaroo_init\<lparr>isJumping := True, velocityY := 4, positionY := 1\<rparr>)
       = Kangaroo_init\<lparr>isJumping := True, velocityY := 4, positionY := 1\<rparr>"
  using jumpInterval_airborne_noop
    [of "Kangaroo_init\<lparr>isJumping := True, velocityY := 4, positionY := 1\<rparr>"]
  by simp




text \<open>
  C7. The end-to-end scenario: constants of \<open>part_000\<close>, \<open>delta = 1/60\<close>, one trigger at
  tick \<open>0\<close>. \<open>2 * jumpForce / |gravity|\<close> seconds are \<open>64\<close> ticks. After every number of
  ticks (so after each of the \<open>200\<close>) \<open>positionY\<close> is at least \<open>0\<close>; it is positive after
  ticks \<open>1\<close> to \<open>62\<close>; tick \<open>63\<close>, which is within two ticks of \<open>64\<close>, brings it back to
  exactly \<open>0\<close> and ends the jump; and it stays \<open>0\<close> from then on.

  With binary64 rounding the same run is airborne after each of the first \<open>63\<close> ticks,
  lands at exactly \<open>0\<close> on tick \<open>64\<close>, stays there and is never negative (lemmas
  \<open>Kangaroo_b64_airborne_before_64\<close>, \<open>Kangaroo_b64_64\<close>, \<open>Kangaroo_b64_after_64\<close>,
  \<open>Kangaroo_b64_never_negative\<close>): tick \<open>64\<close> is within the tolerance as well.
\<close>

theorem scenario_jump_returns:
  "2 * jumpForce_p0 / \<bar>gravity_p0\<bar> = 64 * (1/60)
   \<and> (\<forall>n. 0 \<le> positionY (scenario_jump n))
   \<and> (\<forall>n. 1 \<le> n \<and> n \<le> 62 \<longrightarrow> isJumping (scenario_jump n) \<and> 0 < positionY (scenario_jump n))
   \<and> (63::nat) \<in> {64 - 2 .. 64 + 2}
   \<and> positionY (scenario_jump 63) = 0 \<and> \<not> isJumping (scenario_jump 63)
   \<and> (\<forall>n. 63 \<le> n \<longrightarrow> positionY (scenario_jump n) = 0 \<and> \<not> isJumping (scenario_jump n))"
proof -
  have c: "2 * jumpForce_p0 / \<bar>gravity_p0\<bar> = 64 * (1/60)"
    by (simp add: jumpForce_p0_def gravity_p0_def)
  have nonneg: "0 \<le> positionY (scenario_jump n)" for n
    using scenario_jump_above_ground [of n] by (simp add: groundLevel_p0_def)
  have air: "isJumping (scenario_jump n) \<and> 0 < positionY (scenario_jump n)"
    if "1 \<le> n \<and> n \<le> 62" for n
  proof -
    have "0 < real n * (63 - real n) / 480"
      using that by (intro divide_pos_pos mult_pos_pos) simp_all
    moreover have "isJumping (scenario_jump n)"
      and "positionY (scenario_jump n) = real n * (63 - real n) / 480"
      using scenario_jump_airborne [of n] that by blast+
    ultimately show ?thesis by (simp only: simp_thms)
  qed
  have after: "positionY (scenario_jump n) = 0 \<and> \<not> isJumping (scenario_jump n)"
    if "63 \<le> n" for n
    using scenario_jump_after_landing [of "n - 63"] that by simp
  show ?thesis
    using c nonneg air after scenario_jump_landing by simp
qed

theorem scenario_jump_returns_witness:
  "isJumping (scenario_jump 1) \<and> 0 < positionY (scenario_jump 1)
   \<and> positionY (scenario_jump 200) = 0 \<and> \<not> isJumping (scenario_jump 200)"
proof -
  have "\<forall>n. 1 \<le> n \<and> n \<le> 62 \<longrightarrow> isJumping (scenario_jump n) \<and> 0 < positionY (scenario_jump n)"
    and "\<forall>n. 63 \<le> n \<longrightarrow> positionY (scenario_jump n) = 0 \<and> \<not> isJumping (scenario_jump n)"
    using scenario_jump_returns by blast+
  then show ?thesis by simp
qed

text \<open>
  C8, as stated, fails: with speed \<open>5\<close>, bound \<open>40\<close> and \<open>delta = 1/30\<close> the offset after
  \<open>240\<close> frames is exactly \<open>-40\<close>, which is not below \<open>-40\<close>; no frame among the first \<open>240\<close>
  has executed the reset.
\<close>

theorem scroll_scenario_240_counterexample:
  "Hills_resets_p0 (replicate 240 (1/30)) mounted_at_origin = 0
   \<and> fold Hills_useFrame_p0 (replicate 240 (1/30)) mounted_at_origin
       = Some \<lparr>position_x = - 40, position_y = 0, rotation_y = 0\<rparr>"
  using Hills_p0_fixed_step [of 240] by simp

text \<open>
  C8, amended. For the scroller with speed \<open>5\<close>, bound \<open>40\<close>, reset value \<open>0\<close> (the Hills of
  \<open>part_000\<close>), \<open>delta = 1/30\<close>, starting at offset \<open>0\<close>: \<open>wrapThreshold / (speed * dt)\<close> is
  \<open>240\<close>; after \<open>k \<le> 240\<close> frames the offset is \<open>-k/6\<close> and no reset has occurred; frame
  \<open>241\<close> is the first to reset the offset to \<open>0\<close>.

  With binary64 rounding the offset after \<open>240\<close> frames is a little above \<open>-40\<close>; there
  too no reset occurs in the first \<open>240\<close> frames and frame \<open>241\<close> resets (lemmas
  \<open>Hills_b64_240\<close>, \<open>Hills_b64_241\<close>).
\<close>

theorem scroll_scenario_first_reset:
  "wrapThreshold (Hills_group_p0 0) / (speed (Hills_group_p0 0) * (1/30)) = 240
   \<and> (\<forall>k. k \<le> 240 \<longrightarrow>
        fold Hills_useFrame_p0 (replicate k (1/30)) mounted_at_origin
          = Some \<lparr>position_x = - real k / 6, position_y = 0, rotation_y = 0\<rparr>
        \<and> Hills_resets_p0 (replicate k (1/30)) mounted_at_origin = 0)
   \<and> fold Hills_useFrame_p0 (replicate 241 (1/30)) mounted_at_origin = mounted_at_origin
   \<and> Hills_resets_p0 (replicate 241 (1/30)) mounted_at_origin = 1"
  using Hills_p0_fixed_step Hills_p0_tick_241 by (simp add: Hills_group_p0_def)

theorem scroll_scenario_first_reset_witness:
  "(240::nat) \<le> 240
   \<and> fold Hills_useFrame_p0 (replicate 240 (1/30)) mounted_at_origin
       = Some \<lparr>position_x = - 40, position_y = 0, rotation_y = 0\<rparr>
   \<and> Hills_resets_p0 (replicate 240 (1/30)) mounted_at_origin = 0"
proof -
  have "\<forall>k. k \<le> 240 \<longrightarrow>
        fold Hills_useFrame_p0 (replicate k (1/30)) mounted_at_origin
          = Some \<lparr>position_x = - real k / 6, position_y = 0, rotation_y = 0\<rparr>
        \<and> Hills_resets_p0 (replicate k (1/30)) mounted_at_origin = 0"
    using scroll_scenario_first_reset by blast
  then have "(240::nat) \<le> 240 \<longrightarrow>
        fold Hills_useFrame_p0 (replicate 240 (1/30)) mounted_at_origin
          = Some \<lparr>position_x = - real 240 / 6, position_y = 0, rotation_y = 0\<rparr>
        \<and> Hills_resets_p0 (replicate 240 (1/30)) mounted_at_origin = 0"
    by (rule spec)
  then show ?thesis by simp
qed

text \<open>
  C9, as stated, fails: the clouds of \<open>index.tsx\<close> are \<open>15\<close> apart, and their group wraps
  after a distance of \<open>wrapThreshold - resetValue = 60\<close>.
\<close>

theorem spacing_equals_wrap_counterexample:
  "gaps (map fst Clouds_positions) = [15, 15, 15, 15, 15, 15]
   \<and> wrapThreshold (Clouds_group 0) - resetValue (Clouds_group 0) = 60
   \<and> (15::real) \<noteq> 60"
  using Clouds_positions_gaps by (simp add: Clouds_group_def eval_nat_numeral)

text \<open>
  C9, amended. For the Hills of both files and the Clouds of \<open>index.tsx\<close>, consecutive
  features are a constant distance apart, and the wrap distance
  \<open>wrapThreshold - resetValue\<close> of the group is a whole multiple of that distance
  (\<open>60 = 10 * 6\<close>, \<open>60 = 4 * 15\<close>, \<open>40 = 5 * 8\<close>).
\<close>

theorem wrap_distance_multiple_of_spacing:
  "gaps (map feature_x (Hills_init random)) = replicate 29 6
   \<and> wrapThreshold (Hills_group x) - resetValue (Hills_group x) = 10 * 6
   \<and> gaps (map fst Clouds_positions) = replicate 6 15
   \<and> wrapThreshold (Clouds_group x) - resetValue (Clouds_group x) = 4 * 15
   \<and> gaps (map feature_x (Hills_init_p0 random)) = replicate 19 8
   \<and> wrapThreshold (Hills_group_p0 x) - resetValue (Hills_group_p0 x) = 5 * 8"
  by (simp only: Hills_init_gaps Clouds_positions_gaps Hills_init_p0_gaps simp_thms)
     (simp add: Hills_group_def Clouds_group_def Hills_group_p0_def)

text \<open>
  C10. A frame executed while \<open>isJumping\<close> is false leaves \<open>positionY\<close>, \<open>velocityY\<close>
  and \<open>isJumping\<close> as they are, for every \<open>delta\<close> (non-negative or not): the physics
  update is inside \<open>if (isJumping)\<close>. The only field the frame writes is the rotation of
  the mounted group; its height \<open>position.y\<close> is not written either.
\<close>

theorem Kangaroo_useFrame_grounded_frame:
  "\<not> isJumping s \<Longrightarrow>
     Kangaroo_useFrame t dt s =
       s\<lparr>kangarooRef := map_option (\<lambda>h. h\<lparr>rotation_y := sin (t * 3) * 0.05\<rparr>) (kangarooRef s)\<rparr>
     \<and> positionY (Kangaroo_useFrame t dt s) = positionY s
     \<and> velocityY (Kangaroo_useFrame t dt s) = velocityY s
     \<and> isJumping (Kangaroo_useFrame t dt s) = isJumping s
     \<and> Kangaroo_useFrame_p0 t dt s =
       s\<lparr>kangarooRef := map_option (\<lambda>h. h\<lparr>rotation_y := sin (t * 2) * 0.1\<rparr>) (kangarooRef s)\<rparr>
     \<and> positionY (Kangaroo_useFrame_p0 t dt s) = positionY s
     \<and> velocityY (Kangaroo_useFrame_p0 t dt s) = velocityY s
     \<and> isJumping (Kangaroo_useFrame_p0 t dt s) = isJumping s"
  by (simp add: Kangaroo_useFrame_grounded Kangaroo_useFrame_p0_grounded)

theorem Kangaroo_useFrame_grounded_frame_witness:
  "\<not> isJumping Kangaroo_init
   \<and> positionY (Kangaroo_useFrame 0 (1/60) Kangaroo_init) = 0
   \<and> velocityY (Kangaroo_useFrame 0 (1/60) Kangaroo_init) = 0
   \<and> positionY (Kangaroo_useFrame_p0 0 (1/60) Kangaroo_init) = 0
   \<and> velocityY (Kangaroo_useFrame_p0 0 (1/60) Kangaroo_init) = 0"
  using Kangaroo_useFrame_grounded_frame [of Kangaroo_init 0 "1/60"]
  by (simp add: Kangaroo_init_def)

end
